theory Spec2Isabelle
  imports Complex_Main
begin

section \<open>Line finding: the data model of lineFinding.py\<close>

text \<open>
  The Python exceptions the two modules can raise. \<open>ValueError\<close> is raised by the
  explicit guards of the code, \<open>IndexError\<close> by an array access outside the array,
  \<open>UnboundLocalError\<close> by reading a local variable that no branch has assigned yet.
\<close>

datatype error = ValueError | IndexError | UnboundLocalError

text \<open>
  A two-dimensional numpy array: \<open>shape0\<close> rows and \<open>shape1\<close> columns
  (\<open>image.shape[0]\<close>, \<open>image.shape[1]\<close>), and the sample stored at row \<open>y\<close>,
  column \<open>x\<close>. The guards \<open>None == image\<close> of the source are passed by every array and
  are not part of the model.
\<close>

record 'p image =
  shape0 :: nat
  shape1 :: nat
  pixel :: "nat \<Rightarrow> nat \<Rightarrow> 'p"

text \<open>
  \<open>image[y, x]\<close>: numpy counts a negative index from the end of its axis and raises
  IndexError outside \<open>[-n, n)\<close>.
\<close>

definition getitem :: "'p image \<Rightarrow> int \<Rightarrow> int \<Rightarrow> error + 'p" where
  "getitem img y x =
     (let h = int (shape0 img); w = int (shape1 img)
      in if - h \<le> y \<and> y < h \<and> - w \<le> x \<and> x < w
         then Inr (pixel img (nat (y mod h)) (nat (x mod w)))
         else Inl IndexError)"

subsection \<open>VisitedMatrix\<close>

text \<open>
  \<open>numpy.zeros(image.shape)\<close>: an array of the image's shape; \<open>marked\<close> holds the
  (row, column) pairs whose entry is 1.
\<close>

record VisitedMatrix =
  vshape0 :: nat
  vshape1 :: nat
  marked :: "(nat \<times> nat) set"

definition VisitedMatrix_init :: "'p image \<Rightarrow> VisitedMatrix" where
  "VisitedMatrix_init img = \<lparr>vshape0 = shape0 img, vshape1 = shape1 img, marked = {}\<rparr>"

definition VisitedMatrix_isValidIndice :: "VisitedMatrix \<Rightarrow> int \<Rightarrow> int \<Rightarrow> bool" where
  "VisitedMatrix_isValidIndice vm x y =
     (if y < 0 \<or> y > int (vshape0 vm) then False
      else if x < 0 \<or> x > int (vshape1 vm) then False
      else True)"

text \<open>
  \<open>self._visited_matrix[y,x]\<close> is reached with \<open>0 \<le> y \<le> shape[0]\<close> and
  \<open>0 \<le> x \<le> shape[1]\<close> only; the array access raises IndexError at the upper ends.
\<close>

definition isVisited :: "VisitedMatrix \<Rightarrow> int \<Rightarrow> int \<Rightarrow> error + bool" where
  "isVisited vm x y =
     (if \<not> VisitedMatrix_isValidIndice vm x y then Inl ValueError
      else if y < int (vshape0 vm) \<and> x < int (vshape1 vm)
           then Inr ((nat y, nat x) \<in> marked vm)
           else Inl IndexError)"

definition setVisited :: "VisitedMatrix \<Rightarrow> int \<Rightarrow> int \<Rightarrow> error + VisitedMatrix" where
  "setVisited vm x y =
     (if \<not> VisitedMatrix_isValidIndice vm x y then Inl ValueError
      else if y < int (vshape0 vm) \<and> x < int (vshape1 vm)
           then Inr (vm\<lparr>marked := insert (nat y, nat x) (marked vm)\<rparr>)
           else Inl IndexError)"

text \<open>The loop \<open>for i in range(x1, x2 + 1): self.setVisited(i, y)\<close>, over the list of its indices.\<close>

fun setRowVisited_loop :: "VisitedMatrix \<Rightarrow> int \<Rightarrow> int list \<Rightarrow> error + VisitedMatrix" where
  "setRowVisited_loop vm y [] = Inr vm"
| "setRowVisited_loop vm y (i # is) =
     (case setVisited vm i y of
        Inl e \<Rightarrow> Inl e
      | Inr vm' \<Rightarrow> setRowVisited_loop vm' y is)"

definition setRowVisited :: "VisitedMatrix \<Rightarrow> int \<Rightarrow> int \<Rightarrow> int \<Rightarrow> error + VisitedMatrix" where
  "setRowVisited vm y x1 x2 =
     (if \<not> (VisitedMatrix_isValidIndice vm x1 y \<and> VisitedMatrix_isValidIndice vm x2 y)
      then Inl ValueError
      else if x1 > x2 then setRowVisited_loop vm y [x2..x1]
      else setRowVisited_loop vm y [x1..x2])"

fun setColumnVisited_loop :: "VisitedMatrix \<Rightarrow> int \<Rightarrow> int list \<Rightarrow> error + VisitedMatrix" where
  "setColumnVisited_loop vm x [] = Inr vm"
| "setColumnVisited_loop vm x (i # is) =
     (case setVisited vm x i of
        Inl e \<Rightarrow> Inl e
      | Inr vm' \<Rightarrow> setColumnVisited_loop vm' x is)"

definition setColumnVisited :: "VisitedMatrix \<Rightarrow> int \<Rightarrow> int \<Rightarrow> int \<Rightarrow> error + VisitedMatrix" where
  "setColumnVisited vm x y1 y2 =
     (if \<not> (VisitedMatrix_isValidIndice vm x y1 \<and> VisitedMatrix_isValidIndice vm x y2)
      then Inl ValueError
      else if y1 > y2 then setColumnVisited_loop vm x [y2..y1]
      else setColumnVisited_loop vm x [y1..y2])"

subsection \<open>LineSegment\<close>

record LineSegment =
  x_start :: int
  y_start :: int
  x_end :: int
  y_end :: int
  vertical :: bool

definition setVertical :: "LineSegment \<Rightarrow> LineSegment" where
  "setVertical s = s\<lparr>vertical := True\<rparr>"

definition isPoint :: "LineSegment \<Rightarrow> bool" where
  "isPoint s = (0 = x_end s - x_start s \<and> 0 = y_end s - y_start s)"

definition getXLength :: "LineSegment \<Rightarrow> int" where
  "getXLength s = \<bar>x_end s - x_start s\<bar> + 1"

definition getYLength :: "LineSegment \<Rightarrow> int" where
  "getYLength s = \<bar>y_end s - y_start s\<bar> + 1"

definition setEndCoordinate :: "LineSegment \<Rightarrow> int \<Rightarrow> int \<Rightarrow> LineSegment" where
  "setEndCoordinate s x y = s\<lparr>x_end := x, y_end := y\<rparr>"

definition setStartCoordinate :: "LineSegment \<Rightarrow> int \<Rightarrow> int \<Rightarrow> LineSegment" where
  "setStartCoordinate s x y = s\<lparr>x_start := x, y_start := y\<rparr>"

definition LineSegment_isValidIndice :: "'p image \<Rightarrow> int \<Rightarrow> int \<Rightarrow> bool" where
  "LineSegment_isValidIndice img x y =
     (if y < 0 \<or> y \<ge> int (shape0 img) then False
      else if x < 0 \<or> x \<ge> int (shape1 img) then False
      else True)"

text \<open>
  The tail shared by the three probes: the bounds check, then
  \<open>isLineColor(image[temp_y, temp_x])\<close>.
\<close>

definition probe :: "'p image \<Rightarrow> ('p \<Rightarrow> bool) \<Rightarrow> int \<Rightarrow> int \<Rightarrow> error + bool" where
  "probe img isLineColor temp_x temp_y =
     (if \<not> LineSegment_isValidIndice img temp_x temp_y then Inr False
      else case getitem img temp_y temp_x of
             Inl e \<Rightarrow> Inl e
           | Inr c \<Rightarrow> Inr (isLineColor c))"

definition isNextPixelBelow :: "LineSegment \<Rightarrow> 'p image \<Rightarrow> ('p \<Rightarrow> bool) \<Rightarrow> error + bool" where
  "isNextPixelBelow s img isLineColor = probe img isLineColor (x_end s) (y_end s + 1)"

definition isNextPixelRightDown :: "LineSegment \<Rightarrow> 'p image \<Rightarrow> ('p \<Rightarrow> bool) \<Rightarrow> error + bool" where
  "isNextPixelRightDown s img isLineColor = probe img isLineColor (x_end s + 1) (y_end s + 1)"

definition isNextPixelLeftDown :: "LineSegment \<Rightarrow> 'p image \<Rightarrow> ('p \<Rightarrow> bool) \<Rightarrow> error + bool" where
  "isNextPixelLeftDown s img isLineColor =
     (if vertical s then probe img isLineColor (x_end s - 1) (y_end s + 1)
      else probe img isLineColor (x_start s - 1) (y_start s + 1))"

subsection \<open>Run finding\<close>

text \<open>
  \<open>l = y; while l < image.shape[0] and isLineColor(image[l,x]): l += 1; return (x, l-1)\<close>.
  The loop counter runs up to the number of rows, which bounds the loop.
\<close>

function findVerticalSegment_loop ::
  "'p image \<Rightarrow> int \<Rightarrow> int \<Rightarrow> ('p \<Rightarrow> bool) \<Rightarrow> error + int" where
  "findVerticalSegment_loop img x l isLineColor =
     (if l < int (shape0 img)
      then (case getitem img l x of
              Inl e \<Rightarrow> Inl e
            | Inr c \<Rightarrow> if isLineColor c then findVerticalSegment_loop img x (l + 1) isLineColor
                       else Inr l)
      else Inr l)"
  by pat_completeness auto
termination
  by (relation "measure (\<lambda>(img, x, l, P). nat (int (shape0 img) - l))") auto

definition findVerticalSegment ::
  "'p image \<Rightarrow> int \<Rightarrow> int \<Rightarrow> ('p \<Rightarrow> bool) \<Rightarrow> error + (int \<times> int)" where
  "findVerticalSegment img x y isLineColor =
     (case findVerticalSegment_loop img x y isLineColor of
        Inl e \<Rightarrow> Inl e
      | Inr l \<Rightarrow> Inr (x, l - 1))"

function findHorizontalNegativeSegment_loop ::
  "'p image \<Rightarrow> int \<Rightarrow> int \<Rightarrow> ('p \<Rightarrow> bool) \<Rightarrow> error + int" where
  "findHorizontalNegativeSegment_loop img l y isLineColor =
     (if l \<ge> 0
      then (case getitem img y l of
              Inl e \<Rightarrow> Inl e
            | Inr c \<Rightarrow> if isLineColor c
                       then findHorizontalNegativeSegment_loop img (l - 1) y isLineColor
                       else Inr l)
      else Inr l)"
  by pat_completeness auto
termination
  by (relation "measure (\<lambda>(img, l, y, P). nat (l + 1))") auto

definition findHorizontalNegativeSegment ::
  "'p image \<Rightarrow> int \<Rightarrow> int \<Rightarrow> ('p \<Rightarrow> bool) \<Rightarrow> error + (int \<times> int)" where
  "findHorizontalNegativeSegment img x y isLineColor =
     (case findHorizontalNegativeSegment_loop img x y isLineColor of
        Inl e \<Rightarrow> Inl e
      | Inr l \<Rightarrow> Inr (l + 1, y))"

function findHorizontalPositiveSegment_loop ::
  "'p image \<Rightarrow> int \<Rightarrow> int \<Rightarrow> ('p \<Rightarrow> bool) \<Rightarrow> error + int" where
  "findHorizontalPositiveSegment_loop img l y isLineColor =
     (if l < int (shape1 img)
      then (case getitem img y l of
              Inl e \<Rightarrow> Inl e
            | Inr c \<Rightarrow> if isLineColor c
                       then findHorizontalPositiveSegment_loop img (l + 1) y isLineColor
                       else Inr l)
      else Inr l)"
  by pat_completeness auto
termination
  by (relation "measure (\<lambda>(img, l, y, P). nat (int (shape1 img) - l))") auto

definition findHorizontalPositiveSegment ::
  "'p image \<Rightarrow> int \<Rightarrow> int \<Rightarrow> ('p \<Rightarrow> bool) \<Rightarrow> error + (int \<times> int)" where
  "findHorizontalPositiveSegment img x y isLineColor =
     (case findHorizontalPositiveSegment_loop img x y isLineColor of
        Inl e \<Rightarrow> Inl e
      | Inr l \<Rightarrow> Inr (l - 1, y))"

declare findVerticalSegment_loop.simps [simp del]
declare findHorizontalNegativeSegment_loop.simps [simp del]
declare findHorizontalPositiveSegment_loop.simps [simp del]

subsection \<open>Octant handlers\<close>

text \<open>
  The body of each \<open>while moreSeg\<close> loop is a step function: it takes the segment, the
  visited matrix and the loop's local variables, and returns the new value of \<open>moreSeg\<close>
  with the new state, or the exception the body raises. The locals \<open>x_end, y_end\<close> of
  the shallow handlers are unbound until a probe has succeeded once (\<open>None\<close>).
  \<open>length\<close> and \<open>max_length\<close> are fixed at entry; the loops carry the entry segment
  they are computed from.
\<close>

type_synonym run = "int \<times> int"

fun handleFourthOctant_step ::
  "'p image \<Rightarrow> ('p \<Rightarrow> bool) \<Rightarrow> LineSegment \<Rightarrow> LineSegment \<times> VisitedMatrix \<times> run option \<Rightarrow>
   error + (bool \<times> LineSegment \<times> VisitedMatrix \<times> run option)" where
  "handleFourthOctant_step img isLineColor entry (seg, vm, run) =
     (let length = getXLength entry; max_length = 2 * length;
          x_temp = x_start seg - 1; y_temp = y_start seg + 1
      in case isNextPixelLeftDown seg img isLineColor of
           Inl e \<Rightarrow> Inl e
         | Inr found \<Rightarrow>
            (case (if found
                   then (case findHorizontalNegativeSegment img x_temp y_temp isLineColor of
                           Inl e \<Rightarrow> Inl e
                         | Inr r \<Rightarrow> Inr (Some r))
                   else Inr run) of
               Inl e \<Rightarrow> Inl e
             | Inr None \<Rightarrow> Inl UnboundLocalError
             | Inr (Some (xe, ye)) \<Rightarrow>
                (let lengthX = x_temp - xe + 1
                 in if lengthX \<ge> length \<and> lengthX \<le> max_length
                    then (case setRowVisited vm y_temp x_temp xe of
                            Inl e \<Rightarrow> Inl e
                          | Inr vm' \<Rightarrow> Inr (found, setStartCoordinate seg xe ye, vm', Some (xe, ye)))
                    else Inr (False, seg, vm, Some (xe, ye)))))"

fun handleSeventhOctant_step ::
  "'p image \<Rightarrow> ('p \<Rightarrow> bool) \<Rightarrow> LineSegment \<Rightarrow> LineSegment \<times> VisitedMatrix \<times> run option \<Rightarrow>
   error + (bool \<times> LineSegment \<times> VisitedMatrix \<times> run option)" where
  "handleSeventhOctant_step img isLineColor entry (seg, vm, run) =
     (let length = getXLength entry; max_length = 2 * length;
          x_temp = x_end seg + 1; y_temp = y_end seg + 1
      in case isNextPixelRightDown seg img isLineColor of
           Inl e \<Rightarrow> Inl e
         | Inr found \<Rightarrow>
            (case (if found
                   then (case findHorizontalPositiveSegment img x_temp y_temp isLineColor of
                           Inl e \<Rightarrow> Inl e
                         | Inr r \<Rightarrow> Inr (Some r))
                   else Inr run) of
               Inl e \<Rightarrow> Inl e
             | Inr None \<Rightarrow> Inl UnboundLocalError
             | Inr (Some (xe, ye)) \<Rightarrow>
                (let lengthX = xe - x_temp + 1
                 in if lengthX \<ge> length \<and> lengthX \<le> max_length
                    then (case setRowVisited vm y_temp x_temp xe of
                            Inl e \<Rightarrow> Inl e
                          | Inr vm' \<Rightarrow> Inr (found, setEndCoordinate seg xe ye, vm', Some (xe, ye)))
                    else Inr (False, seg, vm, Some (xe, ye)))))"

text \<open>
  The steep handler: the tail of its loop body, from \<open>lengthY = (y_end - y_temp) + 1\<close> on,
  with the value \<open>moreSeg\<close> has after the probes.
\<close>

definition handleFifthAndSixthOctant_accept ::
  "LineSegment \<Rightarrow> bool \<Rightarrow> LineSegment \<Rightarrow> VisitedMatrix \<Rightarrow> int \<Rightarrow> int \<Rightarrow> run \<Rightarrow>
   error + (bool \<times> LineSegment \<times> VisitedMatrix \<times> int \<times> run)" where
  "handleFifthAndSixthOctant_accept entry moreSeg seg vm x_temp y_temp r =
     (case r of (xe, ye) \<Rightarrow>
        (let length = getYLength entry; max_length = 2 * length;
             lengthY = (ye - y_temp) + 1
         in if lengthY \<ge> length \<and> lengthY \<le> max_length
            then (case setColumnVisited vm x_temp y_temp ye of
                    Inl e \<Rightarrow> Inl e
                  | Inr vm' \<Rightarrow> Inr (moreSeg, setEndCoordinate seg xe ye, vm', x_temp, (xe, ye)))
            else Inr (False, seg, vm, x_temp, (xe, ye))))"

fun handleFifthAndSixthOctant_step ::
  "'p image \<Rightarrow> ('p \<Rightarrow> bool) \<Rightarrow> LineSegment \<Rightarrow> LineSegment \<times> VisitedMatrix \<times> int \<times> run \<Rightarrow>
   error + (bool \<times> LineSegment \<times> VisitedMatrix \<times> int \<times> run)" where
  "handleFifthAndSixthOctant_step img isLineColor entry (seg, vm, x_temp, run) =
     (let y_temp = y_end seg + 1
      in case isNextPixelLeftDown seg img isLineColor of
           Inl e \<Rightarrow> Inl e
         | Inr left \<Rightarrow>
            if left
            then (case findVerticalSegment img (x_temp - 1) y_temp isLineColor of
                    Inl e \<Rightarrow> Inl e
                  | Inr r \<Rightarrow> handleFifthAndSixthOctant_accept entry True seg vm (x_temp - 1) y_temp r)
            else (case isNextPixelRightDown seg img isLineColor of
                    Inl e \<Rightarrow> Inl e
                  | Inr right \<Rightarrow>
                     if right
                     then (case findVerticalSegment img (x_temp + 1) y_temp isLineColor of
                             Inl e \<Rightarrow> Inl e
                           | Inr r \<Rightarrow>
                               handleFifthAndSixthOctant_accept entry True seg vm (x_temp + 1) y_temp r)
                     else handleFifthAndSixthOctant_accept entry False seg vm x_temp y_temp run))"

declare handleFourthOctant_step.simps [simp del]
declare handleSeventhOctant_step.simps [simp del]
declare handleFifthAndSixthOctant_step.simps [simp del]

lemma getXLength_pos: "1 \<le> getXLength s"
  by (simp add: getXLength_def)

lemma getYLength_pos: "1 \<le> getYLength s"
  by (simp add: getYLength_def)

lemma probe_True_valid:
  "probe img P x y = Inr True \<Longrightarrow> 0 \<le> x \<and> x < int (shape1 img) \<and> 0 \<le> y \<and> y < int (shape0 img)"
  by (auto simp: probe_def LineSegment_isValidIndice_def split: if_splits)

lemma getitem_Inr_rows: "getitem img y x = Inr c \<Longrightarrow> y < int (shape0 img)"
  by (auto simp: getitem_def Let_def split: if_splits)

lemma findHorizontalPositiveSegment_row:
  "findHorizontalPositiveSegment img x y P = Inr (xe, ye) \<Longrightarrow> ye = y"
  by (auto simp: findHorizontalPositiveSegment_def split: sum.splits)

lemma findHorizontalNegativeSegment_row:
  "findHorizontalNegativeSegment img x y P = Inr (xe, ye) \<Longrightarrow> ye = y"
  by (auto simp: findHorizontalNegativeSegment_def split: sum.splits)

lemma findHorizontalNegativeSegment_loop_moved:
  "findHorizontalNegativeSegment_loop img l y P = Inr l' \<Longrightarrow> l' \<noteq> l \<Longrightarrow> y < int (shape0 img)"
  by (subst (asm) findHorizontalNegativeSegment_loop.simps)
     (auto split: if_splits sum.splits dest: getitem_Inr_rows)

lemma findVerticalSegment_loop_moved:
  "findVerticalSegment_loop img x l P = Inr l' \<Longrightarrow> l' \<noteq> l \<Longrightarrow> l < int (shape0 img)"
  by (subst (asm) findVerticalSegment_loop.simps) (auto split: if_splits sum.splits)

lemma findVerticalSegment_loop_upper:
  "findVerticalSegment_loop img x l P = Inr l' \<Longrightarrow> l' \<le> max l (int (shape0 img))"
proof (induction img x l P rule: findVerticalSegment_loop.induct)
  case (1 img x l P)
  show ?case
  proof (cases "l < int (shape0 img)")
    case False
    with "1.prems" show ?thesis
      by (subst (asm) findVerticalSegment_loop.simps) auto
  next
    case True
    show ?thesis
    proof (cases "getitem img l x")
      case (Inl e)
      with True "1.prems" show ?thesis
        by (subst (asm) findVerticalSegment_loop.simps) auto
    next
      case (Inr c)
      show ?thesis
      proof (cases "P c")
        case False
        with True Inr "1.prems" show ?thesis
          by (subst (asm) findVerticalSegment_loop.simps) auto
      next
        case Pc: True
        with True Inr "1.prems" have "findVerticalSegment_loop img x (l + 1) P = Inr l'"
          by (subst (asm) findVerticalSegment_loop.simps) auto
        from "1.IH" [OF True Inr Pc this] True show ?thesis by linarith
      qed
    qed
  qed
qed

lemma handleFourthOctant_step_more:
  assumes "handleFourthOctant_step img P entry (seg, vm, run) = Inr (True, seg', vm', run')"
  shows "y_start seg' = y_start seg + 1 \<and> y_start seg + 1 < int (shape0 img)"
proof -
  from assms obtain xe ye where
    f: "findHorizontalNegativeSegment img (x_start seg - 1) (y_start seg + 1) P = Inr (xe, ye)"
    and w: "getXLength entry \<le> x_start seg - 1 - xe + 1"
    and s: "seg' = setStartCoordinate seg xe ye"
    by (auto simp: handleFourthOctant_step.simps Let_def
             split: sum.splits option.splits if_splits prod.splits)
  from f have ye: "ye = y_start seg + 1" by (rule findHorizontalNegativeSegment_row)
  from f obtain l where l: "findHorizontalNegativeSegment_loop img (x_start seg - 1) (y_start seg + 1) P = Inr l"
    and xe: "xe = l + 1"
    by (auto simp: findHorizontalNegativeSegment_def split: sum.splits)
  from w xe getXLength_pos [of entry] have "l \<noteq> x_start seg - 1" by linarith
  from findHorizontalNegativeSegment_loop_moved [OF l this] s ye
  show ?thesis by (simp add: setStartCoordinate_def)
qed

lemma handleSeventhOctant_step_more:
  assumes "handleSeventhOctant_step img P entry (seg, vm, run) = Inr (True, seg', vm', run')"
  shows "y_end seg' = y_end seg + 1 \<and> y_end seg + 1 < int (shape0 img)"
  using assms
  by (auto simp: handleSeventhOctant_step.simps Let_def isNextPixelRightDown_def setEndCoordinate_def
           split: sum.splits option.splits if_splits prod.splits
           dest!: probe_True_valid findHorizontalPositiveSegment_row)

lemma handleFifthAndSixthOctant_accept_more:
  assumes "handleFifthAndSixthOctant_accept entry True seg vm xt (y_end seg + 1) r = Inr (True, seg', vm', xt', r')"
    and "findVerticalSegment img x (y_end seg + 1) P = Inr r"
  shows "y_end seg < y_end seg' \<and> y_end seg' < int (shape0 img)"
proof -
  obtain xe ye where r: "r = (xe, ye)" by (cases r) auto
  from assms(1) r have w: "getYLength entry \<le> ye - (y_end seg + 1) + 1"
    and s: "seg' = setEndCoordinate seg xe ye"
    by (auto simp: handleFifthAndSixthOctant_accept_def Let_def split: if_splits sum.splits)
  from assms(2) r obtain l where l: "findVerticalSegment_loop img x (y_end seg + 1) P = Inr l"
    and ye: "ye = l - 1"
    by (auto simp: findVerticalSegment_def split: sum.splits)
  from w ye getYLength_pos [of entry] have ne: "l \<noteq> y_end seg + 1" and lo: "y_end seg + 1 < l" by linarith+
  from findVerticalSegment_loop_moved [OF l ne] findVerticalSegment_loop_upper [OF l]
  have "l \<le> int (shape0 img)" by linarith
  with lo s ye show ?thesis by (simp add: setEndCoordinate_def)
qed

lemma handleFifthAndSixthOctant_step_more:
  assumes "handleFifthAndSixthOctant_step img P entry (seg, vm, xt, run) = Inr (True, seg', vm', xt', run')"
  shows "y_end seg < y_end seg' \<and> y_end seg' < int (shape0 img)"
proof -
  have no: "handleFifthAndSixthOctant_accept entry False seg vm xt y r \<noteq> Inr (True, seg', vm', xt', run')" for y r
    by (auto simp: handleFifthAndSixthOctant_accept_def Let_def split: prod.splits sum.splits)
  from assms no show ?thesis
    by (auto simp: handleFifthAndSixthOctant_step.simps Let_def
             split: sum.splits if_splits
             dest: handleFifthAndSixthOctant_accept_more)
qed

function handleFourthOctant_loop ::
  "'p image \<Rightarrow> ('p \<Rightarrow> bool) \<Rightarrow> LineSegment \<Rightarrow> LineSegment \<times> VisitedMatrix \<times> run option \<Rightarrow>
   error + (LineSegment \<times> VisitedMatrix \<times> run option)" where
  "handleFourthOctant_loop img isLineColor entry st =
     (case handleFourthOctant_step img isLineColor entry st of
        Inl e \<Rightarrow> Inl e
      | Inr (moreSeg, st') \<Rightarrow>
          if moreSeg then handleFourthOctant_loop img isLineColor entry st' else Inr st')"
  by pat_completeness auto
termination
proof (relation "measure (\<lambda>(img, P, entry, seg, vm, run). nat (int (shape0 img) - y_start seg))")
  fix img :: "'p image" and P entry st x2 moreSeg st'
  assume "handleFourthOctant_step img P entry st = Inr x2" "(moreSeg, st') = x2" moreSeg
  then have *: "handleFourthOctant_step img P entry st = Inr (True, st')" by auto
  obtain seg vm run where st: "st = (seg, vm, run)" by (cases st) auto
  obtain seg' vm' run' where st': "st' = (seg', vm', run')" by (cases st') auto
  from handleFourthOctant_step_more [OF * [unfolded st st']]
  show "((img, P, entry, st'), img, P, entry, st)
          \<in> measure (\<lambda>(img, P, entry, seg, vm, run). nat (int (shape0 img) - y_start seg))"
    by (simp add: st st')
qed simp

function handleSeventhOctant_loop ::
  "'p image \<Rightarrow> ('p \<Rightarrow> bool) \<Rightarrow> LineSegment \<Rightarrow> LineSegment \<times> VisitedMatrix \<times> run option \<Rightarrow>
   error + (LineSegment \<times> VisitedMatrix \<times> run option)" where
  "handleSeventhOctant_loop img isLineColor entry st =
     (case handleSeventhOctant_step img isLineColor entry st of
        Inl e \<Rightarrow> Inl e
      | Inr (moreSeg, st') \<Rightarrow>
          if moreSeg then handleSeventhOctant_loop img isLineColor entry st' else Inr st')"
  by pat_completeness auto
termination
proof (relation "measure (\<lambda>(img, P, entry, seg, vm, run). nat (int (shape0 img) - y_end seg))")
  fix img :: "'p image" and P entry st x2 moreSeg st'
  assume "handleSeventhOctant_step img P entry st = Inr x2" "(moreSeg, st') = x2" moreSeg
  then have *: "handleSeventhOctant_step img P entry st = Inr (True, st')" by auto
  obtain seg vm run where st: "st = (seg, vm, run)" by (cases st) auto
  obtain seg' vm' run' where st': "st' = (seg', vm', run')" by (cases st') auto
  from handleSeventhOctant_step_more [OF * [unfolded st st']]
  show "((img, P, entry, st'), img, P, entry, st)
          \<in> measure (\<lambda>(img, P, entry, seg, vm, run). nat (int (shape0 img) - y_end seg))"
    by (simp add: st st')
qed simp

function handleFifthAndSixthOctant_loop ::
  "'p image \<Rightarrow> ('p \<Rightarrow> bool) \<Rightarrow> LineSegment \<Rightarrow> LineSegment \<times> VisitedMatrix \<times> int \<times> run \<Rightarrow>
   error + (LineSegment \<times> VisitedMatrix \<times> int \<times> run)" where
  "handleFifthAndSixthOctant_loop img isLineColor entry st =
     (case handleFifthAndSixthOctant_step img isLineColor entry st of
        Inl e \<Rightarrow> Inl e
      | Inr (moreSeg, st') \<Rightarrow>
          if moreSeg then handleFifthAndSixthOctant_loop img isLineColor entry st' else Inr st')"
  by pat_completeness auto
termination
proof (relation "measure (\<lambda>(img, P, entry, seg, vm, xt, run). nat (int (shape0 img) - y_end seg))")
  fix img :: "'p image" and P entry st x2 moreSeg st'
  assume "handleFifthAndSixthOctant_step img P entry st = Inr x2" "(moreSeg, st') = x2" moreSeg
  then have *: "handleFifthAndSixthOctant_step img P entry st = Inr (True, st')" by auto
  obtain seg vm xt run where st: "st = (seg, vm, xt, run)" by (cases st) auto
  obtain seg' vm' xt' run' where st': "st' = (seg', vm', xt', run')" by (cases st') auto
  from handleFifthAndSixthOctant_step_more [OF * [unfolded st st']]
  show "((img, P, entry, st'), img, P, entry, st)
          \<in> measure (\<lambda>(img, P, entry, seg, vm, xt, run). nat (int (shape0 img) - y_end seg))"
    by (simp add: st st')
qed simp

declare handleFourthOctant_loop.simps [simp del]
declare handleSeventhOctant_loop.simps [simp del]
declare handleFifthAndSixthOctant_loop.simps [simp del]

definition handleFourthOctant ::
  "'p image \<Rightarrow> LineSegment \<Rightarrow> VisitedMatrix \<Rightarrow> ('p \<Rightarrow> bool) \<Rightarrow> error + (LineSegment \<times> VisitedMatrix)" where
  "handleFourthOctant img lineSegment visited_matrix isLineColor =
     (case handleFourthOctant_loop img isLineColor lineSegment (lineSegment, visited_matrix, None) of
        Inl e \<Rightarrow> Inl e
      | Inr (seg, vm, run) \<Rightarrow> Inr (seg, vm))"

definition handleSeventhOctant ::
  "'p image \<Rightarrow> LineSegment \<Rightarrow> VisitedMatrix \<Rightarrow> ('p \<Rightarrow> bool) \<Rightarrow> error + (LineSegment \<times> VisitedMatrix)" where
  "handleSeventhOctant img lineSegment visited_matrix isLineColor =
     (case handleSeventhOctant_loop img isLineColor lineSegment (lineSegment, visited_matrix, None) of
        Inl e \<Rightarrow> Inl e
      | Inr (seg, vm, run) \<Rightarrow> Inr (seg, vm))"

definition handleFourthAndSeventhOctant ::
  "'p image \<Rightarrow> LineSegment \<Rightarrow> VisitedMatrix \<Rightarrow> ('p \<Rightarrow> bool) \<Rightarrow> error + (LineSegment \<times> VisitedMatrix)" where
  "handleFourthAndSeventhOctant img lineSegment visited_matrix isLineColor =
     (case findHorizontalPositiveSegment img (x_start lineSegment) (y_start lineSegment) isLineColor of
        Inl e \<Rightarrow> Inl e
      | Inr (xe, ye) \<Rightarrow>
         (let seg = setEndCoordinate lineSegment xe ye
          in case setRowVisited visited_matrix ye (x_start seg) xe of
               Inl e \<Rightarrow> Inl e
             | Inr vm \<Rightarrow>
                (case isNextPixelRightDown seg img isLineColor of
                   Inl e \<Rightarrow> Inl e
                 | Inr right \<Rightarrow>
                    if right then handleSeventhOctant img seg vm isLineColor
                    else (case isNextPixelLeftDown seg img isLineColor of
                            Inl e \<Rightarrow> Inl e
                          | Inr left \<Rightarrow>
                             if left then handleFourthOctant img seg vm isLineColor
                             else Inr (seg, vm)))))"

definition handleFifthAndSixthOctant ::
  "'p image \<Rightarrow> LineSegment \<Rightarrow> VisitedMatrix \<Rightarrow> ('p \<Rightarrow> bool) \<Rightarrow> error + (LineSegment \<times> VisitedMatrix)" where
  "handleFifthAndSixthOctant img lineSegment visited_matrix isLineColor =
     (case findVerticalSegment img (x_start lineSegment) (y_start lineSegment) isLineColor of
        Inl e \<Rightarrow> Inl e
      | Inr (xe, ye) \<Rightarrow>
         (let seg = setEndCoordinate lineSegment xe ye
          in case setColumnVisited visited_matrix (x_start seg) (y_start seg) ye of
               Inl e \<Rightarrow> Inl e
             | Inr vm \<Rightarrow>
                (case handleFifthAndSixthOctant_loop img isLineColor seg (seg, vm, x_start seg, (xe, ye)) of
                   Inl e \<Rightarrow> Inl e
                 | Inr (seg', vm', x_temp, run) \<Rightarrow> Inr (seg', vm'))))"

subsection \<open>The scan driver\<close>

text \<open>
  \<open>for i in range(image.shape[0]): for j in range(image.shape[1])\<close>, over the list of
  the pairs \<open>(i, j)\<close> in that order. \<open>and\<close> evaluates \<open>isVisited\<close> only for a
  line-coloured pixel.
\<close>

fun findLines_loop ::
  "'p image \<Rightarrow> ('p \<Rightarrow> bool) \<Rightarrow> (nat \<times> nat) list \<Rightarrow> LineSegment list \<times> VisitedMatrix \<Rightarrow>
   error + (LineSegment list \<times> VisitedMatrix)" where
  "findLines_loop img isLineColor [] st = Inr st"
| "findLines_loop img isLineColor ((i, j) # rest) (lines, visited_matrix) =
     (case getitem img (int i) (int j) of
        Inl e \<Rightarrow> Inl e
      | Inr c \<Rightarrow>
         if \<not> isLineColor c then findLines_loop img isLineColor rest (lines, visited_matrix)
         else (case isVisited visited_matrix (int j) (int i) of
                 Inl e \<Rightarrow> Inl e
               | Inr v \<Rightarrow>
                  if v then findLines_loop img isLineColor rest (lines, visited_matrix)
                  else (let lineSegment = \<lparr>x_start = int j, y_start = int i, x_end = int j,
                                              y_end = int i, vertical = False\<rparr>
                        in case isNextPixelBelow lineSegment img isLineColor of
                             Inl e \<Rightarrow> Inl e
                           | Inr below \<Rightarrow>
                              (case (if below
                                     then handleFifthAndSixthOctant img (setVertical lineSegment)
                                            visited_matrix isLineColor
                                     else handleFourthAndSeventhOctant img lineSegment
                                            visited_matrix isLineColor) of
                                 Inl e \<Rightarrow> Inl e
                               | Inr (seg, vm) \<Rightarrow>
                                   findLines_loop img isLineColor rest (lines @ [seg], vm)))))"

definition findLines' :: "'p image \<Rightarrow> ('p \<Rightarrow> bool) \<Rightarrow> error + LineSegment list" where
  "findLines' img isLineColor =
     (case findLines_loop img isLineColor
             (List.product [0..<shape0 img] [0..<shape1 img]) ([], VisitedMatrix_init img) of
        Inl e \<Rightarrow> Inl e
      | Inr (lines, vm) \<Rightarrow> Inr lines)"

section \<open>Post processing: the model of postProcessing.py\<close>

text \<open>
  The post-processing functions mutate LineSegment objects that lists share, and compare
  them by identity (\<open>line in visitedLines\<close>, \<open>structure.remove(line_2)\<close>; the class
  defines no \<open>__eq__\<close>). An object is a reference, the heap maps a reference to the
  object's fields, and a list of lines (also the \<open>_lines\<close> of a Structure) is a list of
  references.
\<close>

type_synonym ref = nat
type_synonym heap = "ref \<Rightarrow> LineSegment"
type_synonym Structure = "ref list"

subsection \<open>Adjacency and grouping\<close>

definition getAdjacentCoordinates :: "int \<Rightarrow> int \<Rightarrow> int \<Rightarrow> (int \<times> int) list" where
  "getAdjacentCoordinates x y delta =
     concat (map (\<lambda>i. map (\<lambda>j. (i, j)) [y - delta..y + delta]) [x - delta..x + delta])"

definition isAdjacentPoint :: "int \<Rightarrow> int \<Rightarrow> int \<Rightarrow> int \<Rightarrow> int \<Rightarrow> bool" where
  "isAdjacentPoint x_1 y_1 x_2 y_2 delta = ((x_2, y_2) \<in> set (getAdjacentCoordinates x_1 y_1 delta))"

definition isAdjacentToEnd :: "LineSegment \<Rightarrow> LineSegment \<Rightarrow> int \<Rightarrow> bool" where
  "isAdjacentToEnd line_1 line_2 delta =
     (isAdjacentPoint (x_end line_1) (y_end line_1) (x_start line_2) (y_start line_2) delta \<or>
      isAdjacentPoint (x_end line_1) (y_end line_1) (x_end line_2) (y_end line_2) delta)"

definition isAdjacentToStart :: "LineSegment \<Rightarrow> LineSegment \<Rightarrow> int \<Rightarrow> bool" where
  "isAdjacentToStart line_1 line_2 delta =
     (isAdjacentPoint (x_start line_1) (y_start line_1) (x_start line_2) (y_start line_2) delta \<or>
      isAdjacentPoint (x_start line_1) (y_start line_1) (x_end line_2) (y_end line_2) delta)"

definition isAdjacent :: "LineSegment \<Rightarrow> LineSegment \<Rightarrow> int \<Rightarrow> bool" where
  "isAdjacent line_1 line_2 delta =
     (isAdjacentToStart line_1 line_2 delta \<or> isAdjacentToEnd line_1 line_2 delta)"

text \<open>
  \<open>collectAdjacentLines\<close>: the \<open>for line in lines\<close> loop, with the lines it has still to
  visit as an argument; the recursive call of the source starts the loop again on the whole
  list \<open>lines\<close>. The state is the pair of the Structure's list and \<open>visitedLines\<close>, both
  appended to in place by the source.
\<close>

function collectAdjacentLines_loop ::
  "heap \<Rightarrow> int \<Rightarrow> ref list \<Rightarrow> ref \<Rightarrow> ref list \<Rightarrow> Structure \<times> ref list \<Rightarrow> Structure \<times> ref list" where
  "collectAdjacentLines_loop h delta lines currentLine [] st = st"
| "collectAdjacentLines_loop h delta lines currentLine (line # rest) (structure, visitedLines) =
     (if line \<in> set structure \<or> line \<in> set visitedLines
      then collectAdjacentLines_loop h delta lines currentLine rest (structure, visitedLines)
      else if isAdjacent (h currentLine) (h line) delta
           then collectAdjacentLines_loop h delta lines currentLine rest
                  (collectAdjacentLines_loop h delta lines line lines
                     (structure @ [line], visitedLines @ [line]))
           else collectAdjacentLines_loop h delta lines currentLine rest (structure, visitedLines))"
  by pat_completeness auto

lemma collectAdjacentLines_loop_dom_visited:
  "collectAdjacentLines_loop_dom (h, delta, lines, cur, ls, st) \<Longrightarrow>
   set (snd st) \<subseteq> set (snd (collectAdjacentLines_loop h delta lines cur ls st))"
proof (induction h delta lines cur ls st rule: collectAdjacentLines_loop.pinduct)
  case (1 h delta lines currentLine st)
  then show ?case by (simp add: collectAdjacentLines_loop.psimps)
next
  case (2 h delta lines currentLine line rest s v)
  show ?case
  proof (cases "line \<in> set s \<or> line \<in> set v")
    case True
    with 2 show ?thesis by (simp add: collectAdjacentLines_loop.psimps)
  next
    case False
    show ?thesis
    proof (cases "isAdjacent (h currentLine) (h line) delta")
      case adj: True
      let ?inner = "collectAdjacentLines_loop h delta lines line lines
                      (s @ [line], v @ [line])"
      from "2.IH"(2) [OF False adj]
      have i: "set (v @ [line]) \<subseteq> set (snd ?inner)" by simp
      from "2.IH"(3) [OF False adj]
      have o: "set (snd ?inner) \<subseteq>
               set (snd (collectAdjacentLines_loop h delta lines currentLine rest ?inner))" .
      have "collectAdjacentLines_loop h delta lines currentLine (line # rest) (s, v) =
            collectAdjacentLines_loop h delta lines currentLine rest ?inner"
        using False adj "2.hyps" by (simp add: collectAdjacentLines_loop.psimps)
      with i o show ?thesis by auto
    next
      case nadj: False
      with False 2 show ?thesis by (simp add: collectAdjacentLines_loop.psimps)
    qed
  qed
qed

termination collectAdjacentLines_loop
proof (relation "(\<lambda>(h, delta, lines, cur, ls, s, v). card ((set lines \<union> set ls) - set v))
                   <*mlex*> measure (\<lambda>(h, delta, lines, cur, ls, st). length ls)")
  show "wf ((\<lambda>(h, delta, lines, cur, ls, s, v). card ((set lines \<union> set ls) - set v))
              <*mlex*> measure (\<lambda>(h, delta, lines, cur, ls, st). length ls))"
    by (simp add: wf_mlex)
next
  fix h :: heap and delta :: int and lines :: "ref list" and currentLine line :: ref
    and rest s v :: "ref list"
  have le: "card ((set lines \<union> set rest) - set v) \<le> card ((set lines \<union> set (line # rest)) - set v)"
    by (rule card_mono) auto
  show "((h, delta, lines, currentLine, rest, s, v), h, delta, lines, currentLine, line # rest, s, v)
          \<in> (\<lambda>(h, delta, lines, cur, ls, s, v). card ((set lines \<union> set ls) - set v))
              <*mlex*> measure (\<lambda>(h, delta, lines, cur, ls, st). length ls)"
    using le by (auto simp: mlex_iff)
  then show "((h, delta, lines, currentLine, rest, s, v), h, delta, lines, currentLine, line # rest, s, v)
          \<in> (\<lambda>(h, delta, lines, cur, ls, s, v). card ((set lines \<union> set ls) - set v))
              <*mlex*> measure (\<lambda>(h, delta, lines, cur, ls, st). length ls)" .
  assume fresh: "\<not> (line \<in> set s \<or> line \<in> set v)"
  have "(set lines \<union> set lines) - set (v @ [line]) \<subset> (set lines \<union> set (line # rest)) - set v"
    using fresh by auto
  then have "card ((set lines \<union> set lines) - set (v @ [line]))
             < card ((set lines \<union> set (line # rest)) - set v)"
    by (intro psubset_card_mono) auto
  then show "((h, delta, lines, line, lines, s @ [line], v @ [line]),
              h, delta, lines, currentLine, line # rest, s, v)
          \<in> (\<lambda>(h, delta, lines, cur, ls, s, v). card ((set lines \<union> set ls) - set v))
              <*mlex*> measure (\<lambda>(h, delta, lines, cur, ls, st). length ls)"
    by (simp add: mlex_iff)
  assume dom: "collectAdjacentLines_loop_dom (h, delta, lines, line, lines, s @ [line], v @ [line])"
  obtain s' v' where inner: "collectAdjacentLines_loop h delta lines line lines (s @ [line], v @ [line]) = (s', v')"
    by (cases "collectAdjacentLines_loop h delta lines line lines (s @ [line], v @ [line])") auto
  from collectAdjacentLines_loop_dom_visited [OF dom] inner have "set v \<subseteq> set v'" by simp
  then have "card ((set lines \<union> set rest) - set v') \<le> card ((set lines \<union> set (line # rest)) - set v)"
    by (intro card_mono) auto
  then show "((h, delta, lines, currentLine, rest,
               collectAdjacentLines_loop h delta lines line lines (s @ [line], v @ [line])),
              h, delta, lines, currentLine, line # rest, s, v)
          \<in> (\<lambda>(h, delta, lines, cur, ls, s, v). card ((set lines \<union> set ls) - set v))
              <*mlex*> measure (\<lambda>(h, delta, lines, cur, ls, st). length ls)"
    by (auto simp: mlex_iff inner)
qed

declare collectAdjacentLines_loop.simps [simp del]

definition collectAdjacentLines ::
  "heap \<Rightarrow> ref \<Rightarrow> ref list \<Rightarrow> Structure \<times> ref list \<Rightarrow> int \<Rightarrow> Structure \<times> ref list" where
  "collectAdjacentLines h currentLine lines st delta =
     collectAdjacentLines_loop h delta lines currentLine lines st"

fun groupAdjacentLines_loop ::
  "heap \<Rightarrow> int \<Rightarrow> ref list \<Rightarrow> ref list \<Rightarrow> Structure list \<times> ref list \<Rightarrow> Structure list \<times> ref list" where
  "groupAdjacentLines_loop h delta lines [] st = st"
| "groupAdjacentLines_loop h delta lines (line_1 # rest) (structures, visitedLines) =
     (if line_1 \<in> set visitedLines
      then groupAdjacentLines_loop h delta lines rest (structures, visitedLines)
      else (case collectAdjacentLines h line_1 lines ([line_1], visitedLines @ [line_1]) delta of
              (structure, visitedLines') \<Rightarrow>
                groupAdjacentLines_loop h delta lines rest (structures @ [structure], visitedLines')))"

definition groupAdjacentLines :: "heap \<Rightarrow> ref list \<Rightarrow> int \<Rightarrow> Structure list" where
  "groupAdjacentLines h lines delta = fst (groupAdjacentLines_loop h delta lines lines ([], []))"

subsection \<open>Slope model and merge\<close>

text \<open>
  The floating-point arithmetic of \<open>computeAngle\<close> is read over the reals: \<open>math.sqrt\<close>,
  \<open>math.acos\<close> and \<open>math.degrees\<close> as the exact functions, and \<open>round(r, 5)\<close> as
  rounding to five decimals, halves away from zero (Python 2.7).
\<close>

definition round5 :: "real \<Rightarrow> real" where
  "round5 r = sgn r * real_of_int \<lfloor>\<bar>r\<bar> * 100000 + 1 / 2\<rfloor> / 100000"

definition degrees :: "real \<Rightarrow> real" where
  "degrees a = a * 180 / pi"

definition computeAngle :: "LineSegment \<Rightarrow> LineSegment \<Rightarrow> real" where
  "computeAngle line_1 line_2 =
     (let a_1 = x_start line_1 - x_end line_1;
          a_2 = y_start line_1 - y_end line_1;
          b_1 = x_start line_2 - x_end line_2;
          b_2 = y_start line_2 - y_end line_2;
          ab = a_1 * b_1 + a_2 * b_2
      in if 0 = ab then 90
         else (let a' = sqrt (real_of_int (a_1\<^sup>2 + a_2\<^sup>2));
                   b' = sqrt (real_of_int (b_1\<^sup>2 + b_2\<^sup>2));
                   a'b' = a' * b';
                   r = real_of_int ab / a'b';
                   acos = arccos (round5 r)
               in degrees acos))"

definition haveEqualSlope :: "LineSegment \<Rightarrow> LineSegment \<Rightarrow> real option \<Rightarrow> error + bool" where
  "haveEqualSlope line_1 line_2 angle_epsilon =
     (case angle_epsilon of
        Some eps \<Rightarrow> (let angle = computeAngle line_1 line_2
                     in Inr (- 1 * eps \<le> angle \<and> angle \<le> eps))
      | None \<Rightarrow> Inl ValueError)"

text \<open>
  \<open>combineLines\<close> from \<open>if line_1.isPoint():\<close> on. \<open>setEndCoordinate\<close> writes to the
  object in the heap; the result is the reference returned, or \<open>None\<close>, with the heap.
\<close>

definition combineLines_cases :: "heap \<Rightarrow> ref \<Rightarrow> ref \<Rightarrow> int \<Rightarrow> ref option \<times> heap" where
  "combineLines_cases h line_1 line_2 delta =
     (if isPoint (h line_1)
      then (if isAdjacentToStart (h line_2) (h line_1) delta
            then (Some line_1,
                  h(line_1 := setEndCoordinate (h line_1) (x_end (h line_2)) (y_end (h line_2))))
            else if isAdjacentToEnd (h line_2) (h line_1) delta
            then (Some line_2,
                  h(line_2 := setEndCoordinate (h line_2) (x_end (h line_1)) (y_end (h line_1))))
            else (None, h))
      else if isPoint (h line_2)
      then (if isAdjacentToStart (h line_1) (h line_2) delta
            then (Some line_2,
                  h(line_2 := setEndCoordinate (h line_2) (x_end (h line_1)) (y_end (h line_1))))
            else if isAdjacentToEnd (h line_1) (h line_2) delta
            then (Some line_1,
                  h(line_1 := setEndCoordinate (h line_1) (x_end (h line_2)) (y_end (h line_2))))
            else (None, h))
      else if isAdjacentToStart (h line_1) (h line_2) delta
      then (Some line_2,
            h(line_2 := setEndCoordinate (h line_2) (x_end (h line_1)) (y_end (h line_1))))
      else if isAdjacentToEnd (h line_1) (h line_2) delta
      then (Some line_1,
            h(line_1 := setEndCoordinate (h line_1) (x_end (h line_2)) (y_end (h line_2))))
      else (None, h))"

definition combineLines ::
  "heap \<Rightarrow> ref \<Rightarrow> ref \<Rightarrow> real option \<Rightarrow> int \<Rightarrow> error + (ref option \<times> heap)" where
  "combineLines h line_1 line_2 angle_epsilon delta =
     (if \<not> isPoint (h line_1) \<and> \<not> isPoint (h line_2)
      then (case haveEqualSlope (h line_1) (h line_2) angle_epsilon of
              Inl e \<Rightarrow> Inl e
            | Inr eq \<Rightarrow> if \<not> eq then Inr (None, h)
                        else Inr (combineLines_cases h line_1 line_2 delta))
      else Inr (combineLines_cases h line_1 line_2 delta))"

text \<open>
  The loop \<open>for j in range(i+1, len(structure))\<close> of \<open>combineLinesWithEqualSlope_Rec\<close>,
  over the elements \<open>structure[i+1:]\<close>: it stops at the first \<open>line_2\<close> that combines and
  returns the combined line with it.
\<close>

fun combineLinesWithEqualSlope_scan ::
  "heap \<Rightarrow> ref \<Rightarrow> ref list \<Rightarrow> real option \<Rightarrow> int \<Rightarrow> error + ((ref \<times> ref) option \<times> heap)" where
  "combineLinesWithEqualSlope_scan h line_1 [] angle_epsilon delta = Inr (None, h)"
| "combineLinesWithEqualSlope_scan h line_1 (line_2 # rest) angle_epsilon delta =
     (case combineLines h line_1 line_2 angle_epsilon delta of
        Inl e \<Rightarrow> Inl e
      | Inr (None, h') \<Rightarrow> combineLinesWithEqualSlope_scan h' line_1 rest angle_epsilon delta
      | Inr (Some combinedLine, h') \<Rightarrow> Inr (Some (combinedLine, line_2), h'))"

lemma combineLinesWithEqualSlope_scan_mem:
  "combineLinesWithEqualSlope_scan h line_1 ls eps delta = Inr (Some (c, line_2), h') \<Longrightarrow>
   line_2 \<in> set ls"
  by (induction ls arbitrary: h) (auto split: sum.splits option.splits prod.splits)

function combineLinesWithEqualSlope_Rec ::
  "nat \<Rightarrow> Structure \<Rightarrow> heap \<Rightarrow> real option \<Rightarrow> int \<Rightarrow> error + (Structure \<times> heap)" where
  "combineLinesWithEqualSlope_Rec i structure h angle_epsilon delta =
     (if length structure > i
      then (case combineLinesWithEqualSlope_scan h (structure ! i) (drop (i + 1) structure)
                   angle_epsilon delta of
              Inl e \<Rightarrow> Inl e
            | Inr (Some (combinedLine, line_2), h') \<Rightarrow>
                combineLinesWithEqualSlope_Rec i (remove1 line_2 (structure[i := combinedLine])) h'
                  angle_epsilon delta
            | Inr (None, h') \<Rightarrow>
                combineLinesWithEqualSlope_Rec (i + 1) structure h' angle_epsilon delta)
      else Inr (structure, h))"
  by pat_completeness auto
termination
proof (relation "measure (\<lambda>(i, s, h, eps, delta). 2 * length s - i)")
  fix i :: nat and s :: Structure and h :: heap and angle_epsilon :: "real option"
    and delta :: int and x2 x1 h' x2a combinedLine line_2
  assume len: "i < length s"
    and scan: "combineLinesWithEqualSlope_scan h (s ! i) (drop (i + 1) s)
                 angle_epsilon delta = Inr x2"
    and x: "(x1, h') = x2" "x1 = Some x2a" "(combinedLine, line_2) = x2a"
  from scan x have "line_2 \<in> set (drop (i + 1) s)"
    by (auto dest: combineLinesWithEqualSlope_scan_mem)
  then have "line_2 \<in> set (drop (i + 1) (s[i := combinedLine]))" by simp
  then have "line_2 \<in> set (s[i := combinedLine])" by (rule in_set_dropD)
  then have "length (remove1 line_2 (s[i := combinedLine])) = length s - 1"
    by (simp add: length_remove1)
  with len
  show "((i, remove1 line_2 (s[i := combinedLine]), h', angle_epsilon, delta),
         i, s, h, angle_epsilon, delta)
        \<in> measure (\<lambda>(i, s, h, eps, delta). 2 * length s - i)"
    by simp
qed auto

declare combineLinesWithEqualSlope_Rec.simps [simp del]

fun combineLinesWithEqualSlope_loop ::
  "Structure list \<Rightarrow> Structure list \<Rightarrow> heap \<Rightarrow> real option \<Rightarrow> int \<Rightarrow>
   error + (Structure list \<times> heap)" where
  "combineLinesWithEqualSlope_loop [] processedStructures h angle_epsilon delta =
     Inr (processedStructures, h)"
| "combineLinesWithEqualSlope_loop (structure # rest) processedStructures h angle_epsilon delta =
     (case combineLinesWithEqualSlope_Rec 0 structure h angle_epsilon delta of
        Inl e \<Rightarrow> Inl e
      | Inr (structure', h') \<Rightarrow>
          combineLinesWithEqualSlope_loop rest (processedStructures @ [structure']) h'
            angle_epsilon delta)"

definition combineLinesWithEqualSlope ::
  "Structure list \<Rightarrow> heap \<Rightarrow> real option \<Rightarrow> int \<Rightarrow> error + (Structure list \<times> heap)" where
  "combineLinesWithEqualSlope structures h angle_epsilon delta =
     combineLinesWithEqualSlope_loop structures [] h angle_epsilon delta"

section \<open>Concrete inputs\<close>

text \<open>\<open>LineSegment(x1, y1, x2, y2)\<close>, with \<open>vertical\<close> not given.\<close>

definition newLineSegment :: "int \<Rightarrow> int \<Rightarrow> int \<Rightarrow> int \<Rightarrow> LineSegment" where
  "newLineSegment x1 y1 x2 y2 = \<lparr>x_start = x1, y_start = y1, x_end = x2, y_end = y2, vertical = False\<rparr>"

text \<open>
  The traced segments are distinct objects: the heap that holds the \<open>k\<close>-th segment of a
  list at reference \<open>k\<close>, and the list of these references.
\<close>

definition heap_of :: "LineSegment list \<Rightarrow> heap" where
  "heap_of segs = (\<lambda>r. segs ! r)"

definition refs_of :: "LineSegment list \<Rightarrow> ref list" where
  "refs_of segs = [0..<length segs]"

text \<open>Scenario C: one row, two runs of three line pixels, one background pixel between.\<close>

definition scenario_C :: "bool image" where
  "scenario_C = \<lparr>shape0 = 1, shape1 = 7, pixel = \<lambda>y x. x \<noteq> 3\<rparr>"

text \<open>
  A steep segment whose end has a line pixel diagonally below it on both sides, each the
  top of a run of two.
\<close>

definition fork_image :: "bool image" where
  "fork_image = \<lparr>shape0 = 4, shape1 = 3,
     pixel = \<lambda>y x. (y, x) \<in> {(0, 1), (1, 1), (2, 0), (2, 2), (3, 0), (3, 2)}\<rparr>"

text \<open>Two horizontal runs of two pixels, the lower one to the right, or to the left.\<close>

definition stair_right :: "bool image" where
  "stair_right = \<lparr>shape0 = 2, shape1 = 4,
     pixel = \<lambda>y x. (y, x) \<in> {(0, 0), (0, 1), (1, 2), (1, 3)}\<rparr>"

definition stair_left :: "bool image" where
  "stair_left = \<lparr>shape0 = 2, shape1 = 4,
     pixel = \<lambda>y x. (y, x) \<in> {(0, 2), (0, 3), (1, 0), (1, 1)}\<rparr>"

text \<open>
  A Structure of three segments: a horizontal segment, a point, and a vertical segment
  whose end touches the first and whose start touches the point.
\<close>

definition idem_heap :: heap where
  "idem_heap = heap_of [newLineSegment 5 0 9 0, newLineSegment 3 0 3 0, newLineSegment 4 1 4 0]"

section \<open>Properties\<close>

subsection \<open>The visited matrix and the direction probes\<close>


lemma getitem_in_bounds:
  "0 \<le> y \<Longrightarrow> y < int (shape0 img) \<Longrightarrow> 0 \<le> x \<Longrightarrow> x < int (shape1 img) \<Longrightarrow>
   getitem img y x = Inr (pixel img (nat y) (nat x))"
  by (simp add: getitem_def Let_def)

text \<open>
  C5: for a coordinate pair outside the grid, \<open>isVisited\<close> raises an error and returns no
  value. The guard \<open>isValidIndice\<close> rejects \<open>x < 0\<close>, \<open>y < 0\<close>, \<open>x > W\<close> and
  \<open>y > H\<close> with ValueError; it admits \<open>x = W\<close> and \<open>y = H\<close>, where the array access
  raises IndexError.
\<close>

theorem isVisited_out_of_bounds:
  "x < 0 \<or> x \<ge> int (vshape1 vm) \<or> y < 0 \<or> y \<ge> int (vshape0 vm) \<Longrightarrow>
   isVisited vm x y =
     Inl (if x < 0 \<or> x > int (vshape1 vm) \<or> y < 0 \<or> y > int (vshape0 vm)
          then ValueError else IndexError)"
  by (auto simp: isVisited_def VisitedMatrix_isValidIndice_def)

theorem isVisited_out_of_bounds_witness:
  "isVisited \<lparr>vshape0 = 2, vshape1 = 3, marked = {}\<rparr> 3 1 = Inl IndexError \<and>
   isVisited \<lparr>vshape0 = 2, vshape1 = 3, marked = {}\<rparr> 4 1 = Inl ValueError"
  using isVisited_out_of_bounds [of 3 "\<lparr>vshape0 = 2, vshape1 = 3, marked = {}\<rparr>" 1]
        isVisited_out_of_bounds [of 4 "\<lparr>vshape0 = 2, vshape1 = 3, marked = {}\<rparr>" 1]
  by simp

lemma probe_out_of_bounds:
  "x < 0 \<or> x \<ge> int (shape1 img) \<or> y < 0 \<or> y \<ge> int (shape0 img) \<Longrightarrow>
   probe img P x y = Inr False"
  by (auto simp: probe_def LineSegment_isValidIndice_def)

lemma probe_in_bounds:
  "0 \<le> x \<Longrightarrow> x < int (shape1 img) \<Longrightarrow> 0 \<le> y \<Longrightarrow> y < int (shape0 img) \<Longrightarrow>
   probe img P x y = Inr (P (pixel img (nat y) (nat x)))"
  by (simp add: probe_def LineSegment_isValidIndice_def getitem_in_bounds)

text \<open>
  C9: each direction probe returns \<open>False\<close>, and raises nothing, when the pixel it probes
  lies outside the grid: \<open>(x_end, y_end + 1)\<close> for \<open>isNextPixelBelow\<close>,
  \<open>(x_end + 1, y_end + 1)\<close> for \<open>isNextPixelRightDown\<close>, and for
  \<open>isNextPixelLeftDown\<close> \<open>(x_start - 1, y_start + 1)\<close>, or \<open>(x_end - 1, y_end + 1)\<close>
  when the vertical flag is set.
\<close>

theorem probes_out_of_bounds:
  "(x_end s < 0 \<or> x_end s \<ge> int (shape1 img) \<or> y_end s + 1 < 0 \<or> y_end s + 1 \<ge> int (shape0 img)
      \<longrightarrow> isNextPixelBelow s img P = Inr False) \<and>
   (x_end s + 1 < 0 \<or> x_end s + 1 \<ge> int (shape1 img) \<or> y_end s + 1 < 0 \<or> y_end s + 1 \<ge> int (shape0 img)
      \<longrightarrow> isNextPixelRightDown s img P = Inr False) \<and>
   (\<not> vertical s \<and>
    (x_start s - 1 < 0 \<or> x_start s - 1 \<ge> int (shape1 img) \<or> y_start s + 1 < 0 \<or> y_start s + 1 \<ge> int (shape0 img))
      \<longrightarrow> isNextPixelLeftDown s img P = Inr False) \<and>
   (vertical s \<and>
    (x_end s - 1 < 0 \<or> x_end s - 1 \<ge> int (shape1 img) \<or> y_end s + 1 < 0 \<or> y_end s + 1 \<ge> int (shape0 img))
      \<longrightarrow> isNextPixelLeftDown s img P = Inr False)"
  unfolding isNextPixelBelow_def isNextPixelRightDown_def isNextPixelLeftDown_def
  by (simp add: probe_out_of_bounds)

theorem probes_out_of_bounds_witness:
  "isNextPixelBelow \<lparr>x_start = 0, y_start = 0, x_end = 0, y_end = 0, vertical = False\<rparr>
     \<lparr>shape0 = 1, shape1 = 1, pixel = \<lambda>y x. True\<rparr> (\<lambda>c. c) = Inr False \<and>
   isNextPixelRightDown \<lparr>x_start = 0, y_start = 0, x_end = 0, y_end = 0, vertical = False\<rparr>
     \<lparr>shape0 = 1, shape1 = 1, pixel = \<lambda>y x. True\<rparr> (\<lambda>c. c) = Inr False \<and>
   isNextPixelLeftDown \<lparr>x_start = 0, y_start = 0, x_end = 0, y_end = 0, vertical = False\<rparr>
     \<lparr>shape0 = 1, shape1 = 1, pixel = \<lambda>y x. True\<rparr> (\<lambda>c. c) = Inr False \<and>
   isNextPixelLeftDown \<lparr>x_start = 0, y_start = 0, x_end = 0, y_end = 0, vertical = True\<rparr>
     \<lparr>shape0 = 1, shape1 = 1, pixel = \<lambda>y x. True\<rparr> (\<lambda>c. c) = Inr False"
  using probes_out_of_bounds
          [of "\<lparr>x_start = 0, y_start = 0, x_end = 0, y_end = 0, vertical = False\<rparr>"
              "\<lparr>shape0 = 1, shape1 = 1, pixel = \<lambda>y x. True\<rparr>" "\<lambda>c. c"]
        probes_out_of_bounds
          [of "\<lparr>x_start = 0, y_start = 0, x_end = 0, y_end = 0, vertical = True\<rparr>"
              "\<lparr>shape0 = 1, shape1 = 1, pixel = \<lambda>y x. True\<rparr>" "\<lambda>c. c"]
  by simp

lemma findVerticalSegment_loop_run:
  "0 \<le> x \<Longrightarrow> x < int (shape1 img) \<Longrightarrow> 0 \<le> l \<Longrightarrow> l \<le> int (shape0 img) \<Longrightarrow>
   \<exists>l'. findVerticalSegment_loop img x l P = Inr l' \<and> l \<le> l' \<and> l' \<le> int (shape0 img) \<and>
        (\<forall>r. l \<le> r \<and> r < l' \<longrightarrow> P (pixel img (nat r) (nat x))) \<and>
        (l' < int (shape0 img) \<longrightarrow> \<not> P (pixel img (nat l') (nat x)))"
proof (induction img x l P rule: findVerticalSegment_loop.induct)
  case (1 img x l P)
  show ?case
  proof (cases "l < int (shape0 img)")
    case False
    with "1.prems" show ?thesis by (subst findVerticalSegment_loop.simps) auto
  next
    case inb: True
    with "1.prems" have g: "getitem img l x = Inr (pixel img (nat l) (nat x))"
      by (simp add: getitem_in_bounds)
    show ?thesis
    proof (cases "P (pixel img (nat l) (nat x))")
      case False
      with inb g "1.prems" show ?thesis by (subst findVerticalSegment_loop.simps) auto
    next
      case True
      from "1.IH" [OF inb g True] "1.prems" inb
      obtain l' where l': "findVerticalSegment_loop img x (l + 1) P = Inr l'" "l + 1 \<le> l'"
        "l' \<le> int (shape0 img)"
        "\<forall>r. l + 1 \<le> r \<and> r < l' \<longrightarrow> P (pixel img (nat r) (nat x))"
        "l' < int (shape0 img) \<longrightarrow> \<not> P (pixel img (nat l') (nat x))"
        by auto
      have "\<forall>r. l \<le> r \<and> r < l' \<longrightarrow> P (pixel img (nat r) (nat x))"
      proof (intro allI impI)
        fix r assume "l \<le> r \<and> r < l'"
        then consider "r = l" | "l + 1 \<le> r \<and> r < l'" by linarith
        then show "P (pixel img (nat r) (nat x))" using True l'(4) by cases auto
      qed
      with l' inb g True show ?thesis by (subst findVerticalSegment_loop.simps) simp
    qed
  qed
qed

subsection \<open>Vertical runs\<close>


text \<open>
  C8, as the source has it. \<open>findVerticalSegment\<close> returns \<open>l - 1\<close> for the first row
  \<open>l\<close> that stops the loop, so a seed that is not line-coloured gives the row above the
  seed: the result is below the seed row only when the seed itself satisfies the predicate.
\<close>

theorem findVerticalSegment_seed_counterexample:
  "(0::int) \<le> 0 \<and> (0::int) < int (shape1 \<lparr>shape0 = 1, shape1 = 1, pixel = \<lambda>y x. False\<rparr>) \<and>
   (0::int) < int (shape0 \<lparr>shape0 = 1, shape1 = 1, pixel = \<lambda>y x. False\<rparr>) \<and>
   findVerticalSegment \<lparr>shape0 = 1, shape1 = 1, pixel = \<lambda>y x. False\<rparr> 0 0 (\<lambda>c. c) = Inr (0, - 1) \<and>
   (- 1 :: int) < 0"
  by (simp add: findVerticalSegment_def findVerticalSegment_loop.simps getitem_def)

text \<open>
  C8, amended: for an in-bounds seed whose pixel satisfies the predicate,
  \<open>findVerticalSegment\<close> returns \<open>(x, y')\<close> with \<open>y \<le> y'\<close>, \<open>y'\<close> inside the grid, every
  pixel of column \<open>x\<close> from row \<open>y\<close> to row \<open>y'\<close> satisfying the predicate, and the pixel
  below row \<open>y'\<close>, if the grid has one, not satisfying it.
\<close>

theorem findVerticalSegment_run:
  assumes "0 \<le> x" "x < int (shape1 img)" "0 \<le> y" "y < int (shape0 img)"
    and "isLineColor (pixel img (nat y) (nat x))"
  shows "\<exists>y'. findVerticalSegment img x y isLineColor = Inr (x, y') \<and> y \<le> y' \<and>
              y' < int (shape0 img) \<and>
              (\<forall>r. y \<le> r \<and> r \<le> y' \<longrightarrow> isLineColor (pixel img (nat r) (nat x))) \<and>
              (y' + 1 < int (shape0 img) \<longrightarrow> \<not> isLineColor (pixel img (nat (y' + 1)) (nat x)))"
proof -
  from findVerticalSegment_loop_run [of x img y isLineColor] assms
  obtain l where l: "findVerticalSegment_loop img x y isLineColor = Inr l" "y \<le> l"
    "l \<le> int (shape0 img)"
    "\<forall>r. y \<le> r \<and> r < l \<longrightarrow> isLineColor (pixel img (nat r) (nat x))"
    "l < int (shape0 img) \<longrightarrow> \<not> isLineColor (pixel img (nat l) (nat x))"
    by auto
  from l(2,5) assms(4,5) have "l \<noteq> y" by auto
  with l(2) have "y \<le> l - 1" by simp
  moreover from l(1) have "findVerticalSegment img x y isLineColor = Inr (x, l - 1)"
    by (simp add: findVerticalSegment_def)
  moreover from l(3) have "l - 1 < int (shape0 img)" by simp
  moreover from l(4) have "\<forall>r. y \<le> r \<and> r \<le> l - 1 \<longrightarrow> isLineColor (pixel img (nat r) (nat x))"
    by simp
  moreover from l(5) have "l - 1 + 1 < int (shape0 img) \<longrightarrow> \<not> isLineColor (pixel img (nat (l - 1 + 1)) (nat x))"
    by simp
  ultimately show ?thesis by blast
qed

theorem findVerticalSegment_run_witness:
  "findVerticalSegment \<lparr>shape0 = 3, shape1 = 1, pixel = \<lambda>y x. y < 2\<rparr> 0 0 (\<lambda>c. c) = Inr (0, 1)"
proof -
  let ?img = "\<lparr>shape0 = 3, shape1 = 1, pixel = \<lambda>y x. y < (2::nat)\<rparr>"
  from findVerticalSegment_run [of 0 ?img 0 "\<lambda>c. c"]
  obtain y' where y': "findVerticalSegment ?img 0 0 (\<lambda>c. c) = Inr (0, y')" "0 \<le> y'" "y' < 3"
    "\<forall>r. 0 \<le> r \<and> r \<le> y' \<longrightarrow> nat r < 2"
    "y' + 1 < 3 \<longrightarrow> \<not> nat (y' + 1) < 2"
    by auto
  from y'(2,3) consider "y' = 0" | "y' = 1" | "y' = 2" by linarith
  then have "y' = 1"
  proof cases
    case 1 with y'(5) show ?thesis by simp
  next
    case 2 then show ?thesis .
  next
    case 3 with y'(4) have "nat 2 < (2::nat)" by (elim allE [of _ 2]) simp
    then show ?thesis by simp
  qed
  with y'(1) show ?thesis by simp
qed

subsection \<open>Failed combinations\<close>


lemma isAdjacentPoint_iff:
  "isAdjacentPoint x_1 y_1 x_2 y_2 delta \<longleftrightarrow>
     x_1 - delta \<le> x_2 \<and> x_2 \<le> x_1 + delta \<and> y_1 - delta \<le> y_2 \<and> y_2 \<le> y_1 + delta"
  by (fastforce simp: isAdjacentPoint_def getAdjacentCoordinates_def image_iff)

lemma combineLines_cases_None:
  "combineLines_cases h line_1 line_2 delta = (None, h') \<Longrightarrow> h' = h"
  by (auto simp: combineLines_cases_def split: if_splits)

lemma combineLines_None_heap:
  "combineLines h line_1 line_2 angle_epsilon delta = Inr (None, h') \<Longrightarrow> h' = h"
  by (auto simp: combineLines_def split: if_splits sum.splits dest: combineLines_cases_None)

text \<open>
  C10: whenever \<open>combineLines\<close> returns \<open>None\<close>, no object has been written to: the heap
  after the call is the heap before it, so both operands keep all their coordinates.
\<close>

theorem combineLines_None_unchanged:
  assumes "combineLines h line_1 line_2 angle_epsilon delta = Inr (None, h')"
  shows "h' = h \<and> h' line_1 = h line_1 \<and> h' line_2 = h line_2"
  using combineLines_None_heap [OF assms] by simp

theorem combineLines_None_unchanged_witness:
  "combineLines ((\<lambda>r. newLineSegment 0 0 0 0)(0 := newLineSegment 0 0 4 0, 1 := newLineSegment 8 0 8 5)) 0 1 (Some 10) 1 =
     Inr (None, (\<lambda>r. newLineSegment 0 0 0 0)(0 := newLineSegment 0 0 4 0, 1 := newLineSegment 8 0 8 5))"
proof -
  let ?h = "(\<lambda>r. newLineSegment 0 0 0 0)(0 := newLineSegment 0 0 4 0, 1 := newLineSegment 8 0 8 5)"
  have "\<exists>h'. combineLines ?h 0 1 (Some 10) 1 = Inr (None, h')"
    by (simp add: combineLines_def isPoint_def newLineSegment_def haveEqualSlope_def computeAngle_def)
  then obtain h' where h': "combineLines ?h 0 1 (Some 10) 1 = Inr (None, h')" ..
  from combineLines_None_unchanged [OF h'] have "h' = ?h" by simp
  with h' show ?thesis by simp
qed

subsection \<open>Left precedence in the steep handler\<close>


lemma findVerticalSegment_column:
  "findVerticalSegment img x y P = Inr r \<Longrightarrow> fst r = x"
  by (auto simp: findVerticalSegment_def split: sum.splits)

lemma handleFifthAndSixthOctant_accept_column:
  "handleFifthAndSixthOctant_accept entry m seg vm xt yt r = Inr (moreSeg, seg', vm', xt', run') \<Longrightarrow>
   xt' = xt \<and> run' = r"
  by (auto simp: handleFifthAndSixthOctant_accept_def Let_def split: prod.splits if_splits sum.splits)

text \<open>
  C7: in a step of the steep handler's loop where the left-down and the right-down probe
  both succeed, the run is traced in the column left of the current one
  (\<open>x_temp - 1\<close>), and the step leaves \<open>x_temp - 1\<close> in \<open>x_temp\<close>.
\<close>

theorem steep_left_precedence:
  assumes "isNextPixelLeftDown seg img isLineColor = Inr True"
    and "isNextPixelRightDown seg img isLineColor = Inr True"
  shows "handleFifthAndSixthOctant_step img isLineColor entry (seg, vm, x_temp, run) =
           (case findVerticalSegment img (x_temp - 1) (y_end seg + 1) isLineColor of
              Inl e \<Rightarrow> Inl e
            | Inr r \<Rightarrow> handleFifthAndSixthOctant_accept entry True seg vm (x_temp - 1) (y_end seg + 1) r) \<and>
         (\<forall>moreSeg seg' vm' x_temp' run'.
            handleFifthAndSixthOctant_step img isLineColor entry (seg, vm, x_temp, run) =
              Inr (moreSeg, seg', vm', x_temp', run') \<longrightarrow>
            x_temp' = x_temp - 1 \<and> fst run' = x_temp - 1)"
proof (intro conjI allI impI)
  show eq: "handleFifthAndSixthOctant_step img isLineColor entry (seg, vm, x_temp, run) =
           (case findVerticalSegment img (x_temp - 1) (y_end seg + 1) isLineColor of
              Inl e \<Rightarrow> Inl e
            | Inr r \<Rightarrow> handleFifthAndSixthOctant_accept entry True seg vm (x_temp - 1) (y_end seg + 1) r)"
    using assms(1) by (simp add: handleFifthAndSixthOctant_step.simps Let_def)
  fix moreSeg seg' vm' x_temp' run'
  assume "handleFifthAndSixthOctant_step img isLineColor entry (seg, vm, x_temp, run) =
           Inr (moreSeg, seg', vm', x_temp', run')"
  with eq obtain r where r: "findVerticalSegment img (x_temp - 1) (y_end seg + 1) isLineColor = Inr r"
    and a: "handleFifthAndSixthOctant_accept entry True seg vm (x_temp - 1) (y_end seg + 1) r =
              Inr (moreSeg, seg', vm', x_temp', run')"
    by (auto split: sum.splits)
  from handleFifthAndSixthOctant_accept_column [OF a] findVerticalSegment_column [OF r]
  show "x_temp' = x_temp - 1" and "fst run' = x_temp - 1" by simp_all
qed

lemmas eval_defs =
  isNextPixelLeftDown_def isNextPixelRightDown_def isNextPixelBelow_def probe_def
  LineSegment_isValidIndice_def getitem_def
  findVerticalSegment_def findVerticalSegment_loop.simps
  findHorizontalPositiveSegment_def findHorizontalPositiveSegment_loop.simps
  findHorizontalNegativeSegment_def findHorizontalNegativeSegment_loop.simps
  handleFifthAndSixthOctant_accept_def handleFifthAndSixthOctant_step.simps
  handleFourthOctant_step.simps handleSeventhOctant_step.simps
  setColumnVisited_def setRowVisited_def setVisited_def VisitedMatrix_isValidIndice_def
  getYLength_def getXLength_def setEndCoordinate_def setStartCoordinate_def Let_def

theorem steep_left_precedence_witness:
  "handleFifthAndSixthOctant_step fork_image (\<lambda>c. c)
     \<lparr>x_start = 1, y_start = 0, x_end = 1, y_end = 1, vertical = True\<rparr>
     (\<lparr>x_start = 1, y_start = 0, x_end = 1, y_end = 1, vertical = True\<rparr>,
      \<lparr>vshape0 = 4, vshape1 = 3, marked = {(0, 1), (1, 1)}\<rparr>, 1, (1, 1)) =
   Inr (True, \<lparr>x_start = 1, y_start = 0, x_end = 0, y_end = 3, vertical = True\<rparr>,
        \<lparr>vshape0 = 4, vshape1 = 3, marked = {(3, 0), (2, 0), (0, 1), (1, 1)}\<rparr>, 0, (0, 3))"
proof -
  let ?s = "\<lparr>x_start = 1, y_start = 0, x_end = 1, y_end = 1, vertical = True\<rparr>"
  let ?vm = "\<lparr>vshape0 = 4, vshape1 = 3, marked = {(0, 1), (1, 1)}\<rparr>"
  have l: "isNextPixelLeftDown ?s fork_image (\<lambda>c. c) = Inr True"
    by (simp add: eval_defs fork_image_def)
  have r: "isNextPixelRightDown ?s fork_image (\<lambda>c. c) = Inr True"
    by (simp add: eval_defs fork_image_def)
  have f: "findVerticalSegment fork_image 0 2 (\<lambda>c. c) = Inr (0, 3)"
    by (simp add: eval_defs fork_image_def)
  have a: "handleFifthAndSixthOctant_accept ?s True ?s ?vm 0 2 (0, 3) =
    Inr (True, \<lparr>x_start = 1, y_start = 0, x_end = 0, y_end = 3, vertical = True\<rparr>,
        \<lparr>vshape0 = 4, vshape1 = 3, marked = {(3, 0), (2, 0), (0, 1), (1, 1)}\<rparr>, 0, (0, 3))"
    by (simp add: eval_defs)
  from steep_left_precedence [OF l r, of ?s ?vm 1 "(1, 1)"] f a show ?thesis by simp
qed

subsection \<open>The acceptance window\<close>


text \<open>
  One step of a handler's loop either changes nothing and ends the loop, or accepts the
  run it has traced: the probe has succeeded, the run's inclusive length is in
  \<open>[length, 2 * length]\<close>, the segment's endpoint is moved to the run's end and the run is
  marked visited. The locals \<open>x_end, y_end\<close> hold the segment's moving endpoint whenever
  they are bound; an accepting step keeps this so.
\<close>

lemma handleFourthOctant_step_window:
  assumes "handleFourthOctant_step img P entry (seg, vm, run) = Inr (moreSeg, seg', vm', run')"
    and "run = None \<or> run = Some (x_start seg, y_start seg)"
  shows "(seg' = seg \<and> vm' = vm \<and> \<not> moreSeg) \<or>
         (\<exists>xe. isNextPixelLeftDown seg img P = Inr True \<and>
               findHorizontalNegativeSegment img (x_start seg - 1) (y_start seg + 1) P =
                 Inr (xe, y_start seg + 1) \<and>
               getXLength entry \<le> (x_start seg - 1) - xe + 1 \<and>
               (x_start seg - 1) - xe + 1 \<le> 2 * getXLength entry \<and>
               seg' = setStartCoordinate seg xe (y_start seg + 1) \<and>
               setRowVisited vm (y_start seg + 1) (x_start seg - 1) xe = Inr vm' \<and>
               run' = Some (x_start seg', y_start seg') \<and> moreSeg)"
proof (cases "isNextPixelLeftDown seg img P")
  case (Inl e)
  with assms(1) show ?thesis by (simp add: handleFourthOctant_step.simps Let_def)
next
  case (Inr found)
  show ?thesis
  proof (cases found)
    case False
    with Inr assms getXLength_pos [of entry] show ?thesis
      by (auto simp: handleFourthOctant_step.simps Let_def split: if_splits sum.splits)
  next
    case True
    with Inr assms(1) obtain xe ye where
      f: "findHorizontalNegativeSegment img (x_start seg - 1) (y_start seg + 1) P = Inr (xe, ye)"
      by (cases "findHorizontalNegativeSegment img (x_start seg - 1) (y_start seg + 1) P")
         (auto simp: handleFourthOctant_step.simps Let_def)
    from findHorizontalNegativeSegment_row [OF f] have ye: "ye = y_start seg + 1" .
    from Inr True f ye assms(1) show ?thesis
      by (auto simp: handleFourthOctant_step.simps Let_def setStartCoordinate_def
               split: if_splits sum.splits)
  qed
qed

lemma handleSeventhOctant_step_window:
  assumes "handleSeventhOctant_step img P entry (seg, vm, run) = Inr (moreSeg, seg', vm', run')"
    and "run = None \<or> run = Some (x_end seg, y_end seg)"
  shows "(seg' = seg \<and> vm' = vm \<and> \<not> moreSeg) \<or>
         (\<exists>xe. isNextPixelRightDown seg img P = Inr True \<and>
               findHorizontalPositiveSegment img (x_end seg + 1) (y_end seg + 1) P =
                 Inr (xe, y_end seg + 1) \<and>
               getXLength entry \<le> xe - (x_end seg + 1) + 1 \<and>
               xe - (x_end seg + 1) + 1 \<le> 2 * getXLength entry \<and>
               seg' = setEndCoordinate seg xe (y_end seg + 1) \<and>
               setRowVisited vm (y_end seg + 1) (x_end seg + 1) xe = Inr vm' \<and>
               run' = Some (x_end seg', y_end seg') \<and> moreSeg)"
proof (cases "isNextPixelRightDown seg img P")
  case (Inl e)
  with assms(1) show ?thesis by (simp add: handleSeventhOctant_step.simps Let_def)
next
  case (Inr found)
  show ?thesis
  proof (cases found)
    case False
    with Inr assms getXLength_pos [of entry] show ?thesis
      by (auto simp: handleSeventhOctant_step.simps Let_def split: if_splits sum.splits)
  next
    case True
    with Inr assms(1) obtain xe ye where
      f: "findHorizontalPositiveSegment img (x_end seg + 1) (y_end seg + 1) P = Inr (xe, ye)"
      by (cases "findHorizontalPositiveSegment img (x_end seg + 1) (y_end seg + 1) P")
         (auto simp: handleSeventhOctant_step.simps Let_def)
    from findHorizontalPositiveSegment_row [OF f] have ye: "ye = y_end seg + 1" .
    from Inr True f ye assms(1) show ?thesis
      by (auto simp: handleSeventhOctant_step.simps Let_def setEndCoordinate_def
               split: if_splits sum.splits)
  qed
qed

lemma handleFifthAndSixthOctant_accept_window:
  assumes "handleFifthAndSixthOctant_accept entry m seg vm xt (y_end seg + 1) (xe, ye) =
             Inr (moreSeg, seg', vm', xt', run')"
  shows "(seg' = seg \<and> vm' = vm \<and> \<not> moreSeg) \<or>
         (getYLength entry \<le> ye - (y_end seg + 1) + 1 \<and>
          ye - (y_end seg + 1) + 1 \<le> 2 * getYLength entry \<and>
          seg' = setEndCoordinate seg xe ye \<and>
          setColumnVisited vm xt (y_end seg + 1) ye = Inr vm' \<and>
          run' = (x_end seg', y_end seg') \<and> moreSeg = m)"
  using assms
  by (auto simp: handleFifthAndSixthOctant_accept_def Let_def setEndCoordinate_def
           split: if_splits sum.splits)

lemma handleFifthAndSixthOctant_step_window:
  assumes "handleFifthAndSixthOctant_step img P entry (seg, vm, x_temp, run) =
             Inr (moreSeg, seg', vm', x_temp', run')"
    and "run = (x_end seg, y_end seg)"
  shows "(seg' = seg \<and> vm' = vm \<and> \<not> moreSeg) \<or>
         (\<exists>ye. (isNextPixelLeftDown seg img P = Inr True \<or>
                isNextPixelRightDown seg img P = Inr True) \<and>
               findVerticalSegment img x_temp' (y_end seg + 1) P = Inr (x_temp', ye) \<and>
               getYLength entry \<le> ye - (y_end seg + 1) + 1 \<and>
               ye - (y_end seg + 1) + 1 \<le> 2 * getYLength entry \<and>
               seg' = setEndCoordinate seg x_temp' ye \<and>
               setColumnVisited vm x_temp' (y_end seg + 1) ye = Inr vm' \<and>
               run' = (x_end seg', y_end seg') \<and> moreSeg)"
proof -
  have stale: "handleFifthAndSixthOctant_accept entry False seg vm x_temp (y_end seg + 1) run =
                 Inr (moreSeg, seg', vm', x_temp', run') \<Longrightarrow> seg' = seg \<and> vm' = vm \<and> \<not> moreSeg"
    using assms(2) getYLength_pos [of entry]
    by (auto simp: handleFifthAndSixthOctant_accept_def Let_def split: if_splits sum.splits)
  have traced: "findVerticalSegment img x (y_end seg + 1) P = Inr r \<Longrightarrow>
      handleFifthAndSixthOctant_accept entry True seg vm x (y_end seg + 1) r =
        Inr (moreSeg, seg', vm', x_temp', run') \<Longrightarrow>
      (seg' = seg \<and> vm' = vm \<and> \<not> moreSeg) \<or>
      (\<exists>ye. findVerticalSegment img x_temp' (y_end seg + 1) P = Inr (x_temp', ye) \<and>
            getYLength entry \<le> ye - (y_end seg + 1) + 1 \<and>
            ye - (y_end seg + 1) + 1 \<le> 2 * getYLength entry \<and>
            seg' = setEndCoordinate seg x_temp' ye \<and>
            setColumnVisited vm x_temp' (y_end seg + 1) ye = Inr vm' \<and>
            run' = (x_end seg', y_end seg') \<and> moreSeg)" for x r
  proof -
    assume f: "findVerticalSegment img x (y_end seg + 1) P = Inr r"
      and a: "handleFifthAndSixthOctant_accept entry True seg vm x (y_end seg + 1) r =
                Inr (moreSeg, seg', vm', x_temp', run')"
    obtain xe ye where r: "r = (xe, ye)" by (cases r) auto
    from findVerticalSegment_column [OF f] r have xe: "xe = x" by simp
    from handleFifthAndSixthOctant_accept_column [OF a] have x: "x_temp' = x" by simp
    from handleFifthAndSixthOctant_accept_window [OF a [unfolded r]] f r xe x
    show ?thesis by auto
  qed
  from assms(1) stale traced show ?thesis
    by (auto simp: handleFifthAndSixthOctant_step.simps Let_def split: sum.splits if_splits)
qed

text \<open>
  C4: in each of the three octant handlers, a step of the extension loop that changes the
  segment or the visited matrix has traced, after a successful diagonal probe, a run whose
  inclusive length lies in \<open>[L, 2L]\<close>, where \<open>L\<close> is the length of the segment the
  handler was entered with; it moves the endpoint to the end of that run and marks the run
  visited. Every other step (failed probe, or length outside the window) changes nothing
  and ends the loop. The hypothesis on the locals \<open>x_end, y_end\<close> holds when a handler
  enters its loop and after every accepting step.
\<close>

theorem extension_run_window:
  "(handleFourthOctant_step img P entry (seg, vm, run) = Inr (moreSeg, seg', vm', run') \<and>
    (run = None \<or> run = Some (x_start seg, y_start seg)) \<longrightarrow>
      (seg' = seg \<and> vm' = vm \<and> \<not> moreSeg) \<or>
      (\<exists>xe. isNextPixelLeftDown seg img P = Inr True \<and>
            findHorizontalNegativeSegment img (x_start seg - 1) (y_start seg + 1) P =
              Inr (xe, y_start seg + 1) \<and>
            getXLength entry \<le> (x_start seg - 1) - xe + 1 \<and>
            (x_start seg - 1) - xe + 1 \<le> 2 * getXLength entry \<and>
            seg' = setStartCoordinate seg xe (y_start seg + 1) \<and>
            setRowVisited vm (y_start seg + 1) (x_start seg - 1) xe = Inr vm' \<and>
            run' = Some (x_start seg', y_start seg') \<and> moreSeg)) \<and>
   (handleSeventhOctant_step img P entry (seg, vm, run) = Inr (moreSeg, seg', vm', run') \<and>
    (run = None \<or> run = Some (x_end seg, y_end seg)) \<longrightarrow>
      (seg' = seg \<and> vm' = vm \<and> \<not> moreSeg) \<or>
      (\<exists>xe. isNextPixelRightDown seg img P = Inr True \<and>
            findHorizontalPositiveSegment img (x_end seg + 1) (y_end seg + 1) P =
              Inr (xe, y_end seg + 1) \<and>
            getXLength entry \<le> xe - (x_end seg + 1) + 1 \<and>
            xe - (x_end seg + 1) + 1 \<le> 2 * getXLength entry \<and>
            seg' = setEndCoordinate seg xe (y_end seg + 1) \<and>
            setRowVisited vm (y_end seg + 1) (x_end seg + 1) xe = Inr vm' \<and>
            run' = Some (x_end seg', y_end seg') \<and> moreSeg)) \<and>
   (handleFifthAndSixthOctant_step img P entry (seg, vm, x_temp, r) =
      Inr (moreSeg, seg', vm', x_temp', r') \<and>
    r = (x_end seg, y_end seg) \<longrightarrow>
      (seg' = seg \<and> vm' = vm \<and> \<not> moreSeg) \<or>
      (\<exists>ye. (isNextPixelLeftDown seg img P = Inr True \<or>
             isNextPixelRightDown seg img P = Inr True) \<and>
            findVerticalSegment img x_temp' (y_end seg + 1) P = Inr (x_temp', ye) \<and>
            getYLength entry \<le> ye - (y_end seg + 1) + 1 \<and>
            ye - (y_end seg + 1) + 1 \<le> 2 * getYLength entry \<and>
            seg' = setEndCoordinate seg x_temp' ye \<and>
            setColumnVisited vm x_temp' (y_end seg + 1) ye = Inr vm' \<and>
            r' = (x_end seg', y_end seg') \<and> moreSeg))"
proof (intro conjI impI)
  assume "handleFourthOctant_step img P entry (seg, vm, run) = Inr (moreSeg, seg', vm', run') \<and>
          (run = None \<or> run = Some (x_start seg, y_start seg))"
  then show "(seg' = seg \<and> vm' = vm \<and> \<not> moreSeg) \<or>
      (\<exists>xe. isNextPixelLeftDown seg img P = Inr True \<and>
            findHorizontalNegativeSegment img (x_start seg - 1) (y_start seg + 1) P =
              Inr (xe, y_start seg + 1) \<and>
            getXLength entry \<le> (x_start seg - 1) - xe + 1 \<and>
            (x_start seg - 1) - xe + 1 \<le> 2 * getXLength entry \<and>
            seg' = setStartCoordinate seg xe (y_start seg + 1) \<and>
            setRowVisited vm (y_start seg + 1) (x_start seg - 1) xe = Inr vm' \<and>
            run' = Some (x_start seg', y_start seg') \<and> moreSeg)"
    using handleFourthOctant_step_window [of img P entry seg vm run moreSeg seg' vm' run'] by blast
next
  assume "handleSeventhOctant_step img P entry (seg, vm, run) = Inr (moreSeg, seg', vm', run') \<and>
          (run = None \<or> run = Some (x_end seg, y_end seg))"
  then show "(seg' = seg \<and> vm' = vm \<and> \<not> moreSeg) \<or>
      (\<exists>xe. isNextPixelRightDown seg img P = Inr True \<and>
            findHorizontalPositiveSegment img (x_end seg + 1) (y_end seg + 1) P =
              Inr (xe, y_end seg + 1) \<and>
            getXLength entry \<le> xe - (x_end seg + 1) + 1 \<and>
            xe - (x_end seg + 1) + 1 \<le> 2 * getXLength entry \<and>
            seg' = setEndCoordinate seg xe (y_end seg + 1) \<and>
            setRowVisited vm (y_end seg + 1) (x_end seg + 1) xe = Inr vm' \<and>
            run' = Some (x_end seg', y_end seg') \<and> moreSeg)"
    using handleSeventhOctant_step_window [of img P entry seg vm run moreSeg seg' vm' run'] by blast
next
  assume "handleFifthAndSixthOctant_step img P entry (seg, vm, x_temp, r) =
            Inr (moreSeg, seg', vm', x_temp', r') \<and> r = (x_end seg, y_end seg)"
  then show "(seg' = seg \<and> vm' = vm \<and> \<not> moreSeg) \<or>
      (\<exists>ye. (isNextPixelLeftDown seg img P = Inr True \<or>
             isNextPixelRightDown seg img P = Inr True) \<and>
            findVerticalSegment img x_temp' (y_end seg + 1) P = Inr (x_temp', ye) \<and>
            getYLength entry \<le> ye - (y_end seg + 1) + 1 \<and>
            ye - (y_end seg + 1) + 1 \<le> 2 * getYLength entry \<and>
            seg' = setEndCoordinate seg x_temp' ye \<and>
            setColumnVisited vm x_temp' (y_end seg + 1) ye = Inr vm' \<and>
            r' = (x_end seg', y_end seg') \<and> moreSeg)"
    using handleFifthAndSixthOctant_step_window
            [of img P entry seg vm x_temp r moreSeg seg' vm' x_temp' r'] by blast
qed

lemma stair_right_step:
  "handleSeventhOctant_step stair_right (\<lambda>c. c) (newLineSegment 0 0 1 0)
     (newLineSegment 0 0 1 0, \<lparr>vshape0 = 2, vshape1 = 4, marked = {(0, 0), (0, 1)}\<rparr>, None) =
   Inr (True, newLineSegment 0 0 3 1,
        \<lparr>vshape0 = 2, vshape1 = 4, marked = {(1, 3), (1, 2), (0, 0), (0, 1)}\<rparr>, Some (3, 1))"
  by (simp add: eval_defs stair_right_def newLineSegment_def)

lemma stair_left_step:
  "handleFourthOctant_step stair_left (\<lambda>c. c) (newLineSegment 2 0 3 0)
     (newLineSegment 2 0 3 0, \<lparr>vshape0 = 2, vshape1 = 4, marked = {(0, 2), (0, 3)}\<rparr>, None) =
   Inr (True, newLineSegment 0 1 3 0,
        \<lparr>vshape0 = 2, vshape1 = 4, marked = {(1, 1), (1, 0), (0, 2), (0, 3)}\<rparr>, Some (0, 1))"
  by (simp add: eval_defs stair_left_def newLineSegment_def upto.simps)

lemma fork_step:
  "handleFifthAndSixthOctant_step fork_image (\<lambda>c. c)
     \<lparr>x_start = 1, y_start = 0, x_end = 1, y_end = 1, vertical = True\<rparr>
     (\<lparr>x_start = 1, y_start = 0, x_end = 1, y_end = 1, vertical = True\<rparr>,
      \<lparr>vshape0 = 4, vshape1 = 3, marked = {(0, 1), (1, 1)}\<rparr>, 1, (1, 1)) =
   Inr (True, \<lparr>x_start = 1, y_start = 0, x_end = 0, y_end = 3, vertical = True\<rparr>,
        \<lparr>vshape0 = 4, vshape1 = 3, marked = {(3, 0), (2, 0), (0, 1), (1, 1)}\<rparr>, 0, (0, 3))"
  by (simp add: eval_defs fork_image_def)

theorem extension_run_window_witness:
  "findHorizontalNegativeSegment stair_left 1 1 (\<lambda>c. c) = Inr (0, 1) \<and>
   getXLength (newLineSegment 2 0 3 0) \<le> 1 - 0 + 1 \<and>
   findHorizontalPositiveSegment stair_right 2 1 (\<lambda>c. c) = Inr (3, 1) \<and>
   getXLength (newLineSegment 0 0 1 0) \<le> 3 - 2 + 1 \<and>
   findVerticalSegment fork_image 0 2 (\<lambda>c. c) = Inr (0, 3) \<and>
   getYLength \<lparr>x_start = 1, y_start = 0, x_end = 1, y_end = 1, vertical = True\<rparr> \<le> 3 - 2 + 1"
proof -
  have l: "newLineSegment 0 1 3 0 \<noteq> newLineSegment 2 0 3 0"
    and r: "newLineSegment 0 0 3 1 \<noteq> newLineSegment 0 0 1 0"
    by (simp_all add: newLineSegment_def)
  from extension_run_window
         [of stair_left "\<lambda>c. c" "newLineSegment 2 0 3 0" "newLineSegment 2 0 3 0"
             "\<lparr>vshape0 = 2, vshape1 = 4, marked = {(0, 2), (0, 3)}\<rparr>" None True
             "newLineSegment 0 1 3 0"
             "\<lparr>vshape0 = 2, vshape1 = 4, marked = {(1, 1), (1, 0), (0, 2), (0, 3)}\<rparr>"
             "Some (0, 1)", THEN conjunct1]
       stair_left_step l
  have 4: "findHorizontalNegativeSegment stair_left 1 1 (\<lambda>c. c) = Inr (0, 1) \<and>
           getXLength (newLineSegment 2 0 3 0) \<le> 1 - 0 + 1"
    by (auto simp: newLineSegment_def setStartCoordinate_def)
  from extension_run_window
         [of stair_right "\<lambda>c. c" "newLineSegment 0 0 1 0" "newLineSegment 0 0 1 0"
             "\<lparr>vshape0 = 2, vshape1 = 4, marked = {(0, 0), (0, 1)}\<rparr>" None True
             "newLineSegment 0 0 3 1"
             "\<lparr>vshape0 = 2, vshape1 = 4, marked = {(1, 3), (1, 2), (0, 0), (0, 1)}\<rparr>"
             "Some (3, 1)", THEN conjunct2, THEN conjunct1]
       stair_right_step r
  have 7: "findHorizontalPositiveSegment stair_right 2 1 (\<lambda>c. c) = Inr (3, 1) \<and>
           getXLength (newLineSegment 0 0 1 0) \<le> 3 - 2 + 1"
    by (auto simp: newLineSegment_def setEndCoordinate_def)
  from extension_run_window
         [of fork_image "\<lambda>c. c" "\<lparr>x_start = 1, y_start = 0, x_end = 1, y_end = 1, vertical = True\<rparr>"
             "\<lparr>x_start = 1, y_start = 0, x_end = 1, y_end = 1, vertical = True\<rparr>"
             "\<lparr>vshape0 = 4, vshape1 = 3, marked = {(0, 1), (1, 1)}\<rparr>" _ True
             "\<lparr>x_start = 1, y_start = 0, x_end = 0, y_end = 3, vertical = True\<rparr>"
             "\<lparr>vshape0 = 4, vshape1 = 3, marked = {(3, 0), (2, 0), (0, 1), (1, 1)}\<rparr>"
             _ 1 "(1, 1)" 0 "(0, 3)", THEN conjunct2, THEN conjunct2]
       fork_step
  have 56: "findVerticalSegment fork_image 0 2 (\<lambda>c. c) = Inr (0, 3) \<and>
            getYLength \<lparr>x_start = 1, y_start = 0, x_end = 1, y_end = 1, vertical = True\<rparr> \<le> 3 - 2 + 1"
    by (auto simp: setEndCoordinate_def)
  from 4 7 56 show ?thesis by blast
qed

subsection \<open>Grouping\<close>


text \<open>
  What a call of \<open>collectAdjacentLines\<close> does to its two lists: it appends the same new
  lines to both, each of them once, none of them in either list before, all of them from
  the lists it iterates over.
\<close>

lemma collectAdjacentLines_loop_appends:
  "\<exists>new. collectAdjacentLines_loop h delta lines cur ls (s, v) = (s @ new, v @ new) \<and>
         distinct new \<and> set new \<inter> (set s \<union> set v) = {} \<and> set new \<subseteq> set ls \<union> set lines"
proof (induction h delta lines cur ls "(s, v)" arbitrary: s v rule: collectAdjacentLines_loop.induct)
  case (1 h delta lines currentLine)
  show ?case by (simp add: collectAdjacentLines_loop.simps)
next
  case (2 h delta lines currentLine line rest s v)
  show ?case
  proof (cases "line \<in> set s \<or> line \<in> set v")
    case True
    from "2.hyps"(1) [OF True] obtain new where
      "collectAdjacentLines_loop h delta lines currentLine rest (s, v) = (s @ new, v @ new)"
      "distinct new" "set new \<inter> (set s \<union> set v) = {}" "set new \<subseteq> set rest \<union> set lines"
      by blast
    with True show ?thesis
      by (intro exI [of _ new]) (auto simp: collectAdjacentLines_loop.simps)
  next
    case False
    show ?thesis
    proof (cases "isAdjacent (h currentLine) (h line) delta")
      case nadj: False
      from "2.hyps"(4) [OF False nadj] obtain new where
        "collectAdjacentLines_loop h delta lines currentLine rest (s, v) = (s @ new, v @ new)"
        "distinct new" "set new \<inter> (set s \<union> set v) = {}" "set new \<subseteq> set rest \<union> set lines"
        by blast
      with False nadj show ?thesis
        by (intro exI [of _ new]) (auto simp: collectAdjacentLines_loop.simps)
    next
      case adj: True
      from "2.hyps"(2) [OF False adj] obtain n1 where n1:
        "collectAdjacentLines_loop h delta lines line lines (s @ [line], v @ [line]) =
           ((s @ [line]) @ n1, (v @ [line]) @ n1)"
        "distinct n1" "set n1 \<inter> (set (s @ [line]) \<union> set (v @ [line])) = {}"
        "set n1 \<subseteq> set lines \<union> set lines"
        by blast
      from "2.hyps"(3) [OF False adj n1(1)] obtain n2 where n2:
        "collectAdjacentLines_loop h delta lines currentLine rest
           ((s @ [line]) @ n1, (v @ [line]) @ n1) =
           (((s @ [line]) @ n1) @ n2, ((v @ [line]) @ n1) @ n2)"
        "distinct n2" "set n2 \<inter> (set ((s @ [line]) @ n1) \<union> set ((v @ [line]) @ n1)) = {}"
        "set n2 \<subseteq> set rest \<union> set lines"
        by blast
      have eq: "collectAdjacentLines_loop h delta lines currentLine (line # rest) (s, v) =
                  (s @ (line # n1 @ n2), v @ (line # n1 @ n2))"
        using False adj n1(1) n2(1) by (simp add: collectAdjacentLines_loop.simps)
      have d: "distinct (line # n1 @ n2)" using n1(2,3) n2(2,3) by auto
      have f: "set (line # n1 @ n2) \<inter> (set s \<union> set v) = {}"
        using False n1(3) n2(3) by auto
      have sub: "set (line # n1 @ n2) \<subseteq> set (line # rest) \<union> set lines"
        using n1(4) n2(4) by auto
      from eq d f sub show ?thesis by blast
    qed
  qed
qed

lemma groupAdjacentLines_loop_partition:
  assumes "groupAdjacentLines_loop h delta lines rest (structures, visited) = (S, V)"
    and "concat structures = visited" "distinct visited" "[] \<notin> set structures"
  shows "concat S = V \<and> distinct V \<and> [] \<notin> set S \<and>
         set visited \<union> set rest \<subseteq> set V \<and> set V \<subseteq> set visited \<union> set rest \<union> set lines"
  using assms
proof (induction rest arbitrary: structures visited)
  case Nil
  then show ?case by simp
next
  case (Cons line_1 rest)
  show ?case
  proof (cases "line_1 \<in> set visited")
    case True
    with Cons.prems have "groupAdjacentLines_loop h delta lines rest (structures, visited) = (S, V)"
      by simp
    from Cons.IH [OF this Cons.prems(2-4)] True show ?thesis by auto
  next
    case False
    from collectAdjacentLines_loop_appends [of h delta lines line_1 lines "[line_1]" "visited @ [line_1]"]
    obtain new where new:
      "collectAdjacentLines h line_1 lines ([line_1], visited @ [line_1]) delta =
         ([line_1] @ new, (visited @ [line_1]) @ new)"
      "distinct new" "set new \<inter> (set [line_1] \<union> set (visited @ [line_1])) = {}"
      "set new \<subseteq> set lines \<union> set lines"
      unfolding collectAdjacentLines_def by blast
    with False Cons.prems(1) have run:
      "groupAdjacentLines_loop h delta lines rest
         (structures @ [[line_1] @ new], (visited @ [line_1]) @ new) = (S, V)"
      by simp
    have c: "concat (structures @ [[line_1] @ new]) = (visited @ [line_1]) @ new"
      using Cons.prems(2) by simp
    have d: "distinct ((visited @ [line_1]) @ new)"
      using Cons.prems(3) False new(2,3) by auto
    have e: "[] \<notin> set (structures @ [[line_1] @ new])"
      using Cons.prems(4) by simp
    from Cons.IH [OF run c d e] new(4) show ?thesis by auto
  qed
qed

text \<open>
  C1: the Structures returned by \<open>groupAdjacentLines\<close> partition the input lines. Taken
  together their lines are exactly the input lines, no line occurs twice (neither in two
  Structures nor twice in one), and no Structure is empty. A line is an object: an input
  list that names the same object twice gives it one place in the result.
\<close>

theorem groupAdjacentLines_partition:
  "set (concat (groupAdjacentLines h lines delta)) = set lines \<and>
   distinct (concat (groupAdjacentLines h lines delta)) \<and>
   [] \<notin> set (groupAdjacentLines h lines delta)"
proof -
  obtain S V where r: "groupAdjacentLines_loop h delta lines lines ([], []) = (S, V)"
    by (cases "groupAdjacentLines_loop h delta lines lines ([], [])") auto
  from groupAdjacentLines_loop_partition [OF r] r show ?thesis
    by (auto simp: groupAdjacentLines_def)
qed

subsection \<open>Angles\<close>


lemma round5_one: "round5 1 = 1"
  by (simp add: round5_def)

lemma round5_minus_one: "round5 (- 1) = - 1"
  by (simp add: round5_def)

lemma computeAngle_ratio:
  fixes a1 a2 b1 b2 :: int
  assumes par: "a1 * b2 = a2 * b1" and pos: "0 < a1 * b1 + a2 * b2"
  shows "real_of_int (a1 * b1 + a2 * b2) /
           (sqrt (real_of_int (a1\<^sup>2 + a2\<^sup>2)) * sqrt (real_of_int (b1\<^sup>2 + b2\<^sup>2))) = 1"
proof -
  have "(a1 * b1 + a2 * b2)\<^sup>2 = (a1\<^sup>2 + a2\<^sup>2) * (b1\<^sup>2 + b2\<^sup>2) - (a1 * b2 - a2 * b1)\<^sup>2"
    by (simp add: power2_eq_square algebra_simps)
  with par have "(a1 * b1 + a2 * b2)\<^sup>2 = (a1\<^sup>2 + a2\<^sup>2) * (b1\<^sup>2 + b2\<^sup>2)" by simp
  then have "(real_of_int (a1 * b1 + a2 * b2))\<^sup>2 = real_of_int ((a1\<^sup>2 + a2\<^sup>2) * (b1\<^sup>2 + b2\<^sup>2))"
    by (metis of_int_power)
  moreover from pos have "0 \<le> a1 * b1 + a2 * b2" by simp
  then have "0 \<le> real_of_int (a1 * b1 + a2 * b2)" by (simp only: of_int_0_le_iff)
  ultimately have "sqrt (real_of_int ((a1\<^sup>2 + a2\<^sup>2) * (b1\<^sup>2 + b2\<^sup>2))) = real_of_int (a1 * b1 + a2 * b2)"
    by (rule real_sqrt_unique)
  then have "sqrt (real_of_int (a1\<^sup>2 + a2\<^sup>2)) * sqrt (real_of_int (b1\<^sup>2 + b2\<^sup>2)) =
             real_of_int (a1 * b1 + a2 * b2)"
    by (simp add: real_sqrt_mult)
  moreover from pos have "real_of_int (a1 * b1 + a2 * b2) \<noteq> 0"
    by (simp only: of_int_eq_0_iff)
  ultimately show ?thesis by simp
qed

lemma computeAngle_ratio_neg:
  fixes a1 a2 b1 b2 :: int
  assumes par: "a1 * b2 = a2 * b1" and neg: "a1 * b1 + a2 * b2 < 0"
  shows "real_of_int (a1 * b1 + a2 * b2) /
           (sqrt (real_of_int (a1\<^sup>2 + a2\<^sup>2)) * sqrt (real_of_int (b1\<^sup>2 + b2\<^sup>2))) = - 1"
proof -
  have "a1 * (- b2) = a2 * (- b1)" using par by simp
  moreover have "0 < a1 * (- b1) + a2 * (- b2)" using neg by simp
  ultimately have "real_of_int (a1 * (- b1) + a2 * (- b2)) /
           (sqrt (real_of_int (a1\<^sup>2 + a2\<^sup>2)) * sqrt (real_of_int ((- b1)\<^sup>2 + (- b2)\<^sup>2))) = 1"
    by (rule computeAngle_ratio)
  then show ?thesis by (simp add: divide_eq_eq eq_divide_eq split: if_splits)
qed

text \<open>
  Two segments whose direction vectors are parallel and point the same way are at angle 0;
  pointing opposite ways they are at angle 180.
\<close>

lemma computeAngle_same_direction:
  assumes "(x_start l1 - x_end l1) * (y_start l2 - y_end l2) =
           (y_start l1 - y_end l1) * (x_start l2 - x_end l2)"
    and "0 < (x_start l1 - x_end l1) * (x_start l2 - x_end l2) +
             (y_start l1 - y_end l1) * (y_start l2 - y_end l2)"
  shows "computeAngle l1 l2 = 0"
proof -
  let ?ab = "(x_start l1 - x_end l1) * (x_start l2 - x_end l2) +
             (y_start l1 - y_end l1) * (y_start l2 - y_end l2)"
  have ne: "0 \<noteq> ?ab" using assms(2) by simp
  have "computeAngle l1 l2 =
          degrees (arccos (round5 (real_of_int ?ab /
            (sqrt (real_of_int ((x_start l1 - x_end l1)\<^sup>2 + (y_start l1 - y_end l1)\<^sup>2)) *
             sqrt (real_of_int ((x_start l2 - x_end l2)\<^sup>2 + (y_start l2 - y_end l2)\<^sup>2))))))"
    unfolding computeAngle_def Let_def using ne by (simp only: if_False)
  also have "\<dots> = degrees (arccos (round5 1))"
    by (simp only: computeAngle_ratio [OF assms])
  also have "\<dots> = 0" by (simp add: round5_one degrees_def)
  finally show ?thesis .
qed

lemma computeAngle_opposite_direction:
  assumes "(x_start l1 - x_end l1) * (y_start l2 - y_end l2) =
           (y_start l1 - y_end l1) * (x_start l2 - x_end l2)"
    and "(x_start l1 - x_end l1) * (x_start l2 - x_end l2) +
         (y_start l1 - y_end l1) * (y_start l2 - y_end l2) < 0"
  shows "computeAngle l1 l2 = 180"
proof -
  let ?a1 = "x_start l1 - x_end l1" and ?a2 = "y_start l1 - y_end l1"
  let ?b1 = "x_start l2 - x_end l2" and ?b2 = "y_start l2 - y_end l2"
  let ?ab = "?a1 * ?b1 + ?a2 * ?b2"
  note r = computeAngle_ratio_neg [OF assms]
  have ne: "0 \<noteq> ?ab" using assms(2) by simp
  have "computeAngle l1 l2 =
          degrees (arccos (round5 (real_of_int ?ab /
            (sqrt (real_of_int (?a1\<^sup>2 + ?a2\<^sup>2)) * sqrt (real_of_int (?b1\<^sup>2 + ?b2\<^sup>2))))))"
    unfolding computeAngle_def Let_def using ne by (simp only: if_False)
  also have "\<dots> = degrees (arccos (round5 (- 1)))" by (simp only: r)
  also have "\<dots> = 180" by (simp add: round5_minus_one degrees_def)
  finally show ?thesis .
qed

text \<open>
  C6: with an \<open>angle_epsilon\<close>, \<open>haveEqualSlope\<close> returns whether the angle computed by
  \<open>computeAngle\<close> lies in \<open>[-angle_epsilon, angle_epsilon]\<close>; without one it raises
  ValueError. It is a test for angle 0: direction vectors that are parallel and point the
  same way pass it for every \<open>angle_epsilon \<ge> 0\<close>, and direction vectors that are
  parallel and point opposite ways (angle 180) fail it for every \<open>angle_epsilon < 180\<close>.
\<close>

theorem haveEqualSlope_iff_angle:
  "haveEqualSlope line_1 line_2 (Some angle_epsilon) =
     Inr (- angle_epsilon \<le> computeAngle line_1 line_2 \<and> computeAngle line_1 line_2 \<le> angle_epsilon) \<and>
   haveEqualSlope line_1 line_2 None = Inl ValueError \<and>
   ((x_start line_1 - x_end line_1) * (y_start line_2 - y_end line_2) =
    (y_start line_1 - y_end line_1) * (x_start line_2 - x_end line_2) \<and>
    0 < (x_start line_1 - x_end line_1) * (x_start line_2 - x_end line_2) +
        (y_start line_1 - y_end line_1) * (y_start line_2 - y_end line_2) \<and>
    0 \<le> angle_epsilon \<longrightarrow>
      haveEqualSlope line_1 line_2 (Some angle_epsilon) = Inr True) \<and>
   ((x_start line_1 - x_end line_1) * (y_start line_2 - y_end line_2) =
    (y_start line_1 - y_end line_1) * (x_start line_2 - x_end line_2) \<and>
    (x_start line_1 - x_end line_1) * (x_start line_2 - x_end line_2) +
    (y_start line_1 - y_end line_1) * (y_start line_2 - y_end line_2) < 0 \<and>
    angle_epsilon < 180 \<longrightarrow>
      haveEqualSlope line_1 line_2 (Some angle_epsilon) = Inr False)"
proof (intro conjI impI)
  show "haveEqualSlope line_1 line_2 (Some angle_epsilon) =
     Inr (- angle_epsilon \<le> computeAngle line_1 line_2 \<and> computeAngle line_1 line_2 \<le> angle_epsilon)"
    by (simp add: haveEqualSlope_def Let_def)
  show "haveEqualSlope line_1 line_2 None = Inl ValueError"
    by (simp add: haveEqualSlope_def)
next
  assume "(x_start line_1 - x_end line_1) * (y_start line_2 - y_end line_2) =
    (y_start line_1 - y_end line_1) * (x_start line_2 - x_end line_2) \<and>
    0 < (x_start line_1 - x_end line_1) * (x_start line_2 - x_end line_2) +
        (y_start line_1 - y_end line_1) * (y_start line_2 - y_end line_2) \<and>
    0 \<le> angle_epsilon"
  then have "computeAngle line_1 line_2 = 0" and "0 \<le> angle_epsilon"
    by (simp_all add: computeAngle_same_direction)
  then show "haveEqualSlope line_1 line_2 (Some angle_epsilon) = Inr True"
    by (simp add: haveEqualSlope_def Let_def)
next
  assume "(x_start line_1 - x_end line_1) * (y_start line_2 - y_end line_2) =
    (y_start line_1 - y_end line_1) * (x_start line_2 - x_end line_2) \<and>
    (x_start line_1 - x_end line_1) * (x_start line_2 - x_end line_2) +
    (y_start line_1 - y_end line_1) * (y_start line_2 - y_end line_2) < 0 \<and>
    angle_epsilon < 180"
  then have "computeAngle line_1 line_2 = 180" and "angle_epsilon < 180"
    by (simp_all add: computeAngle_opposite_direction)
  then show "haveEqualSlope line_1 line_2 (Some angle_epsilon) = Inr False"
    by (simp add: haveEqualSlope_def Let_def)
qed

theorem haveEqualSlope_iff_angle_witness:
  "haveEqualSlope (newLineSegment 0 0 2 0) (newLineSegment 4 0 6 0) (Some 5) = Inr True \<and>
   haveEqualSlope (newLineSegment 0 0 2 0) (newLineSegment 6 0 4 0) (Some 5) = Inr False"
proof
  show "haveEqualSlope (newLineSegment 0 0 2 0) (newLineSegment 4 0 6 0) (Some 5) = Inr True"
    using haveEqualSlope_iff_angle [of "newLineSegment 0 0 2 0" "newLineSegment 4 0 6 0" 5,
            THEN conjunct2, THEN conjunct2, THEN conjunct1]
    by (simp add: newLineSegment_def)
  show "haveEqualSlope (newLineSegment 0 0 2 0) (newLineSegment 6 0 4 0) (Some 5) = Inr False"
    using haveEqualSlope_iff_angle [of "newLineSegment 0 0 2 0" "newLineSegment 6 0 4 0" 5,
            THEN conjunct2, THEN conjunct2, THEN conjunct2]
    by (simp add: newLineSegment_def)
qed

subsection \<open>Scenario C\<close>


lemma scenario_C_traced:
  "findLines' scenario_C (\<lambda>c. c) = Inr [newLineSegment 0 0 2 0, newLineSegment 4 0 6 0]"
  by code_simp

lemma scenario_C_angle:
  "computeAngle (newLineSegment 0 0 2 0) (newLineSegment 4 0 6 0) = 0"
  by (rule computeAngle_same_direction) (simp_all add: newLineSegment_def)

text \<open>
  C2, as the source has it: with \<open>delta = 1\<close> the end \<open>(2,0)\<close> of the first segment and
  the start \<open>(4,0)\<close> of the second are two columns apart, outside each other's
  neighbourhood; the segments go to two Structures and nothing is merged.
\<close>

theorem scenario_C_delta_1_counterexample:
  "findLines' scenario_C (\<lambda>c. c) = Inr [newLineSegment 0 0 2 0, newLineSegment 4 0 6 0] \<and>
   groupAdjacentLines (heap_of [newLineSegment 0 0 2 0, newLineSegment 4 0 6 0])
     (refs_of [newLineSegment 0 0 2 0, newLineSegment 4 0 6 0]) 1 = [[0], [1]] \<and>
   combineLinesWithEqualSlope [[0], [1]]
     (heap_of [newLineSegment 0 0 2 0, newLineSegment 4 0 6 0]) (Some 5) 1 =
     Inr ([[0], [1]], heap_of [newLineSegment 0 0 2 0, newLineSegment 4 0 6 0])"
proof (intro conjI)
  show "findLines' scenario_C (\<lambda>c. c) = Inr [newLineSegment 0 0 2 0, newLineSegment 4 0 6 0]"
    by (rule scenario_C_traced)
  show "groupAdjacentLines (heap_of [newLineSegment 0 0 2 0, newLineSegment 4 0 6 0])
     (refs_of [newLineSegment 0 0 2 0, newLineSegment 4 0 6 0]) 1 = [[0], [1]]"
    by code_simp
  show "combineLinesWithEqualSlope [[0], [1]]
     (heap_of [newLineSegment 0 0 2 0, newLineSegment 4 0 6 0]) (Some 5) 1 =
     Inr ([[0], [1]], heap_of [newLineSegment 0 0 2 0, newLineSegment 4 0 6 0])"
    by (simp add: combineLinesWithEqualSlope_def combineLinesWithEqualSlope_Rec.simps)
qed

text \<open>
  C2, amended: for the grid of two 3-pixel runs on one row separated by one background
  pixel, tracing yields the segments \<open>(0,0)-(2,0)\<close> and \<open>(4,0)-(6,0)\<close>; with
  \<open>delta = 2\<close> (and any \<open>angle_epsilon \<ge> 0\<close>) \<open>groupAdjacentLines\<close> puts them in one
  Structure and \<open>combineLinesWithEqualSlope\<close> merges them into the one segment
  \<open>(0,0)-(6,0)\<close>, which spans both runs.
\<close>

theorem scenario_C_delta_2:
  assumes "0 \<le> eps"
  shows "findLines' scenario_C (\<lambda>c. c) = Inr [newLineSegment 0 0 2 0, newLineSegment 4 0 6 0] \<and>
   groupAdjacentLines (heap_of [newLineSegment 0 0 2 0, newLineSegment 4 0 6 0])
     (refs_of [newLineSegment 0 0 2 0, newLineSegment 4 0 6 0]) 2 = [[0, 1]] \<and>
   combineLinesWithEqualSlope [[0, 1]]
     (heap_of [newLineSegment 0 0 2 0, newLineSegment 4 0 6 0]) (Some eps) 2 =
     Inr ([[0]], (heap_of [newLineSegment 0 0 2 0, newLineSegment 4 0 6 0])
                   (0 := newLineSegment 0 0 6 0))"
proof (intro conjI)
  show "findLines' scenario_C (\<lambda>c. c) = Inr [newLineSegment 0 0 2 0, newLineSegment 4 0 6 0]"
    by (rule scenario_C_traced)
  show "groupAdjacentLines (heap_of [newLineSegment 0 0 2 0, newLineSegment 4 0 6 0])
     (refs_of [newLineSegment 0 0 2 0, newLineSegment 4 0 6 0]) 2 = [[0, 1]]"
    by code_simp
  have c: "combineLines (heap_of [newLineSegment 0 0 2 0, newLineSegment 4 0 6 0]) 0 (Suc 0) (Some eps) 2 =
           Inr (Some 0, (heap_of [newLineSegment 0 0 2 0, newLineSegment 4 0 6 0])
                          (0 := newLineSegment 0 0 6 0))"
    using assms scenario_C_angle
    by (simp add: combineLines_def combineLines_cases_def haveEqualSlope_def heap_of_def Let_def
          isPoint_def isAdjacentToStart_def isAdjacentToEnd_def isAdjacentPoint_iff
          setEndCoordinate_def)
       (simp add: newLineSegment_def)
  show "combineLinesWithEqualSlope [[0, 1]]
     (heap_of [newLineSegment 0 0 2 0, newLineSegment 4 0 6 0]) (Some eps) 2 =
     Inr ([[0]], (heap_of [newLineSegment 0 0 2 0, newLineSegment 4 0 6 0])
                   (0 := newLineSegment 0 0 6 0))"
    by (simp add: combineLinesWithEqualSlope_def combineLinesWithEqualSlope_Rec.simps c)
qed

theorem scenario_C_delta_2_witness:
  "combineLinesWithEqualSlope [[0, 1]]
     (heap_of [newLineSegment 0 0 2 0, newLineSegment 4 0 6 0]) (Some 5) 2 =
     Inr ([[0]], (heap_of [newLineSegment 0 0 2 0, newLineSegment 4 0 6 0])
                   (0 := newLineSegment 0 0 6 0))"
  using scenario_C_delta_2 [of 5] by simp

subsection \<open>Merging twice\<close>


lemma idem_first_run:
  "combineLinesWithEqualSlope_Rec 0 [0, 2, 1] idem_heap (Some 10) 1 =
     Inr ([0, 1], idem_heap(1 := newLineSegment 3 0 4 0))"
proof -
  have a: "combineLines idem_heap 0 2 (Some 10) 1 = Inr (None, idem_heap)"
    by (simp add: combineLines_def isPoint_def haveEqualSlope_def computeAngle_def
          idem_heap_def heap_of_def newLineSegment_def)
  have b: "combineLines idem_heap 0 (Suc 0) (Some 10) 1 = Inr (None, idem_heap)"
    by (simp add: combineLines_def combineLines_cases_def isPoint_def
          isAdjacentToStart_def isAdjacentToEnd_def isAdjacentPoint_iff
          idem_heap_def heap_of_def newLineSegment_def)
  have c: "combineLines idem_heap 2 (Suc 0) (Some 10) 1 =
             Inr (Some (Suc 0), idem_heap(Suc 0 := newLineSegment 3 0 4 0))"
    by (simp add: combineLines_def combineLines_cases_def isPoint_def
          isAdjacentToStart_def isAdjacentToEnd_def isAdjacentPoint_iff setEndCoordinate_def
          idem_heap_def heap_of_def newLineSegment_def)
  show ?thesis
    by (simp add: combineLinesWithEqualSlope_Rec.simps a b c)
qed

lemma idem_second_run:
  "combineLinesWithEqualSlope_Rec 0 [0, 1] (idem_heap(1 := newLineSegment 3 0 4 0)) (Some 10) 1 =
     Inr ([1], idem_heap(1 := newLineSegment 3 0 9 0))"
proof -
  have ang: "computeAngle (newLineSegment 5 0 9 0) (newLineSegment 3 0 4 0) = 0"
    by (rule computeAngle_same_direction) (simp_all add: newLineSegment_def)
  have h0: "idem_heap 0 = newLineSegment 5 0 9 0"
    by (simp add: idem_heap_def heap_of_def)
  have c: "combineLines (idem_heap(Suc 0 := newLineSegment 3 0 4 0)) 0 (Suc 0) (Some 10) 1 =
             Inr (Some (Suc 0), idem_heap(Suc 0 := newLineSegment 3 0 9 0))"
    using ang
    by (simp add: combineLines_def combineLines_cases_def haveEqualSlope_def h0 Let_def
          isPoint_def isAdjacentToStart_def isAdjacentToEnd_def isAdjacentPoint_iff
          setEndCoordinate_def)
       (simp add: newLineSegment_def)
  show ?thesis
    by (simp add: combineLinesWithEqualSlope_Rec.simps c)
qed

text \<open>
  C3, as the source has it: the three segments are one Structure of \<open>groupAdjacentLines\<close>;
  the first run of \<open>combineLinesWithEqualSlope\<close> merges the point with the vertical
  segment into \<open>(3,0)-(4,0)\<close> and leaves two segments; a second run on this output merges
  these two into \<open>(3,0)-(9,0)\<close>. The first segment was tried against the other two
  before they were merged, and not after.
\<close>

theorem merge_not_idempotent_counterexample:
  "groupAdjacentLines idem_heap [0, 1, 2] 1 = [[0, 2, 1]] \<and>
   combineLinesWithEqualSlope [[0, 2, 1]] idem_heap (Some 10) 1 =
     Inr ([[0, 1]], idem_heap(1 := newLineSegment 3 0 4 0)) \<and>
   combineLinesWithEqualSlope [[0, 1]] (idem_heap(1 := newLineSegment 3 0 4 0)) (Some 10) 1 =
     Inr ([[1]], idem_heap(1 := newLineSegment 3 0 9 0))"
proof (intro conjI)
  show "groupAdjacentLines idem_heap [0, 1, 2] 1 = [[0, 2, 1]]"
    by code_simp
  show "combineLinesWithEqualSlope [[0, 2, 1]] idem_heap (Some 10) 1 =
     Inr ([[0, 1]], idem_heap(1 := newLineSegment 3 0 4 0))"
    using idem_first_run by (simp add: combineLinesWithEqualSlope_def)
  show "combineLinesWithEqualSlope [[0, 1]] (idem_heap(1 := newLineSegment 3 0 4 0)) (Some 10) 1 =
     Inr ([[1]], idem_heap(1 := newLineSegment 3 0 9 0))"
    using idem_second_run by (simp add: combineLinesWithEqualSlope_def)
qed

lemma combineLinesWithEqualSlope_scan_none:
  assumes "\<And>line_2. line_2 \<in> set ls \<Longrightarrow>
             \<exists>h'. combineLines h line_1 line_2 eps delta = Inr (None, h')"
  shows "combineLinesWithEqualSlope_scan h line_1 ls eps delta = Inr (None, h)"
  using assms
proof (induction ls)
  case Nil
  show ?case by simp
next
  case (Cons line_2 ls)
  from Cons.prems [of line_2] obtain h' where
    "combineLines h line_1 line_2 eps delta = Inr (None, h')" by auto
  with combineLines_None_heap [OF this]
  have "combineLines h line_1 line_2 eps delta = Inr (None, h)" by simp
  moreover have "combineLinesWithEqualSlope_scan h line_1 ls eps delta = Inr (None, h)"
    by (rule Cons.IH) (simp add: Cons.prems)
  ultimately show ?case by simp
qed

lemma combineLinesWithEqualSlope_Rec_fixpoint:
  assumes "\<And>i j. i < j \<Longrightarrow> j < length s \<Longrightarrow>
             \<exists>h'. combineLines h (s ! i) (s ! j) eps delta = Inr (None, h')"
  shows "combineLinesWithEqualSlope_Rec i s h eps delta = Inr (s, h)"
proof (induction "length s - i" arbitrary: i)
  case 0
  then show ?case by (simp add: combineLinesWithEqualSlope_Rec.simps)
next
  case (Suc n)
  then have i: "i < length s" by simp
  have "combineLinesWithEqualSlope_scan h (s ! i) (drop (i + 1) s) eps delta = Inr (None, h)"
  proof (rule combineLinesWithEqualSlope_scan_none)
    fix line_2 assume "line_2 \<in> set (drop (i + 1) s)"
    then obtain k where "k < length s - (i + 1)" "line_2 = s ! (i + 1 + k)"
      by (auto simp: in_set_conv_nth)
    with assms [of i "i + 1 + k"]
    show "\<exists>h'. combineLines h (s ! i) line_2 eps delta = Inr (None, h')" by simp
  qed
  moreover have "combineLinesWithEqualSlope_Rec (i + 1) s h eps delta = Inr (s, h)"
    using Suc.hyps(2) by (intro Suc.hyps(1)) simp
  ultimately show ?case using i
    by (subst combineLinesWithEqualSlope_Rec.simps) simp
qed

lemma combineLinesWithEqualSlope_loop_fixpoint:
  assumes "\<And>s i j. s \<in> set structures \<Longrightarrow> i < j \<Longrightarrow> j < length s \<Longrightarrow>
             \<exists>h'. combineLines h (s ! i) (s ! j) eps delta = Inr (None, h')"
  shows "combineLinesWithEqualSlope_loop structures processed h eps delta =
           Inr (processed @ structures, h)"
  using assms
proof (induction structures arbitrary: processed)
  case Nil
  show ?case by simp
next
  case (Cons s structures)
  have "combineLinesWithEqualSlope_Rec 0 s h eps delta = Inr (s, h)"
    by (rule combineLinesWithEqualSlope_Rec_fixpoint) (simp add: Cons.prems)
  moreover have "combineLinesWithEqualSlope_loop structures (processed @ [s]) h eps delta =
                   Inr ((processed @ [s]) @ structures, h)"
    by (rule Cons.IH) (simp add: Cons.prems)
  ultimately show ?case by simp
qed

text \<open>
  C3, amended: merging changes nothing on fully merged Structures. If in every Structure
  no pair of segments at positions \<open>i < j\<close> admits a successful \<open>combineLines\<close>, then
  \<open>combineLinesWithEqualSlope\<close> returns the Structures, and every segment, as they were.
\<close>

theorem merge_fully_merged_unchanged:
  assumes "\<forall>s \<in> set structures. \<forall>i j. i < j \<and> j < length s \<longrightarrow>
             (\<exists>h'. combineLines h (s ! i) (s ! j) angle_epsilon delta = Inr (None, h'))"
  shows "combineLinesWithEqualSlope structures h angle_epsilon delta = Inr (structures, h)"
  unfolding combineLinesWithEqualSlope_def
  using combineLinesWithEqualSlope_loop_fixpoint [of structures h angle_epsilon delta "[]"] assms
  by simp

theorem merge_fully_merged_unchanged_witness:
  "combineLinesWithEqualSlope [[0, 1]]
     (heap_of [newLineSegment 0 0 4 0, newLineSegment 8 0 8 5]) (Some 10) 1 =
   Inr ([[0, 1]], heap_of [newLineSegment 0 0 4 0, newLineSegment 8 0 8 5])"
proof -
  let ?h = "heap_of [newLineSegment 0 0 4 0, newLineSegment 8 0 8 5]"
  have c: "combineLines ?h 0 (Suc 0) (Some 10) 1 = Inr (None, ?h)"
    by (simp add: combineLines_def isPoint_def haveEqualSlope_def computeAngle_def
          heap_of_def newLineSegment_def)
  have "\<forall>s \<in> set [[0, Suc 0]]. \<forall>i j. i < j \<and> j < length s \<longrightarrow>
          (\<exists>h'. combineLines ?h (s ! i) (s ! j) (Some 10) 1 = Inr (None, h'))"
  proof (intro ballI allI impI)
    fix s :: "nat list" and i j
    assume "s \<in> set [[0, Suc 0]]" and "i < j \<and> j < length s"
    then have "s = [0, Suc 0]" "i = 0" "j = Suc 0" by auto
    with c show "\<exists>h'. combineLines ?h (s ! i) (s ! j) (Some 10) 1 = Inr (None, h')" by simp
  qed
  from merge_fully_merged_unchanged [OF this] show ?thesis by simp
qed

end
